theory Spec2Isabelle
  imports Complex_Main "HOL-Library.Multiset"
begin

section \<open>The in-memory store of the lost-and-found backend\<close>

text \<open>
  The development embeds class \<open>MemStorage\<close> (the storage abstraction) as pure functions
  that take the store and return the new store together with the value the method
  returns. Conventions:
  \<^item> a JavaScript \<open>number\<close> that holds an identifier, a counter, a view count, a limit or
    an offset is an \<open>int\<close>; \<open>NaN\<close>, fractions and the loss of precision above \<open>2^53\<close>
    are outside the model;
  \<^item> a \<open>Date\<close> is its time value, the milliseconds that \<open>getTime()\<close> returns, as an
    \<open>int\<close>; the clock read by \<open>new Date()\<close> is an argument \<open>now\<close> of the creating
    methods;
  \<^item> a \<open>Map\<close> is an association list in insertion order, which is the order in which
    \<open>values()\<close> iterates;
  \<^item> \<open>toLowerCase\<close> and \<open>toDateString\<close> belong to the JavaScript runtime and are
    arguments of \<open>searchItems\<close>.
\<close>

subsection \<open>Values that may be missing\<close>

text \<open>
  An optional, nullable property: the key is missing (or holds \<open>undefined\<close>), holds
  \<open>null\<close>, or holds a value.
\<close>

datatype 'a optional = Undefined | Null | Value 'a

text \<open>\<open>x || null\<close> for an array \<open>x\<close>: every array, also the empty one, is truthy.\<close>

fun array_or_null :: "'a list optional \<Rightarrow> 'a list optional" where
  "array_or_null Undefined = Null"
| "array_or_null Null = Null"
| "array_or_null (Value xs) = Value xs"

text \<open>\<open>x || null\<close> for a string \<open>x\<close>: the empty string is falsy.\<close>

fun string_or_null :: "string optional \<Rightarrow> string optional" where
  "string_or_null Undefined = Null"
| "string_or_null Null = Null"
| "string_or_null (Value s) = (if s = [] then Null else Value s)"

text \<open>The test \<open>if (s)\<close> on an optional string property of an options object.\<close>

fun truthy_string :: "string option \<Rightarrow> bool" where
  "truthy_string None = False"
| "truthy_string (Some s) = (s \<noteq> [])"

text \<open>The test \<open>if (n)\<close> on an optional numeric property.\<close>

fun truthy_number :: "int option \<Rightarrow> bool" where
  "truthy_number None = False"
| "truthy_number (Some n) = (n \<noteq> 0)"

subsection \<open>Entities\<close>

text \<open>
  The store imports the types of its entities from the schema module
  (\<open>@shared/schema\<close>), which is not among the source files. The records below take the
  fields from the data model of the specification. \<open>InsertUser\<close>, \<open>InsertItem\<close> and
  \<open>InsertMessage\<close> are the payloads of the creating methods; an entity is its payload
  extended by the fields the store assigns, as the object spread
  \<open>{ ...insertUser, id, createdAt }\<close> builds it.
\<close>

text \<open>
  Modelled from the spec: the type \<open>InsertUser\<close> of the missing schema module, the fields
  of a user that the caller supplies.
\<close>

record insertUser =
  username :: string
  password :: string
  email :: string
  name :: string

text \<open>
  Modelled from the spec: the type \<open>User\<close> of the missing schema module, the payload with
  the identifier and the creation time that the store assigns.
\<close>

record user = insertUser +
  id' :: int
  createdAt :: int

text \<open>
  Modelled from the spec: the type \<open>InsertMessage\<close> of the missing schema module; the
  body of the message is the one field \<open>content\<close>.
\<close>

record insertMessage =
  itemId :: int
  fromUserId :: int
  toUserId :: int
  content :: string

text \<open>
  Modelled from the spec: the type \<open>Message\<close> of the missing schema module, the payload
  with the identifier, the creation time and the \<open>read\<close> flag that the store assigns.
\<close>

record message = insertMessage +
  id' :: int
  createdAt :: int
  read :: bool

text \<open>
  Modelled from the spec: \<open>Partial<Item>\<close> for the type \<open>Item\<close> of the missing schema
  module, every key of an item, present (\<open>Some\<close>) or missing (\<open>None\<close>).
\<close>

record partialItem =
  userId :: "int option"
  name :: "string option"
  type :: "string option"
  description :: "string option"
  status :: "string option"
  date :: "int option"
  location :: "string option"
  locationDetails :: "string optional option"
  coordinates :: "(real \<times> real) optional option"
  images :: "string list optional option"
  contactName :: "string option"
  contactEmail :: "string option"
  id' :: "int option"
  createdAt :: "int option"
  views :: "int option"

text \<open>
  The options objects of \<open>getItems\<close> and \<open>searchItems\<close>, as the signatures of the two
  methods declare them: every key is optional.
\<close>

record getItemsOptions =
  status :: "string option"
  type :: "string option"
  userId :: "int option"
  limit :: "int option"
  offset :: "int option"

record searchItemsOptions =
  status :: "string option"
  type :: "string option"
  date :: "int option"
  location :: "string option"

text \<open>
  Modelled from the spec: the type \<open>InsertItem\<close> of the missing schema module, the fields
  of a listing that the caller supplies; \<open>locationDetails\<close>, \<open>coordinates\<close> and \<open>images\<close>
  may be omitted or \<open>null\<close>. The coordinates are a pair of latitude and longitude, which
  the store only carries. The item is declared after the other records, so that an
  unqualified field name is the field of an item or of its payload.
\<close>

record insertItem =
  userId :: int
  name :: string
  type :: string
  description :: string
  status :: string
  date :: int
  location :: string
  locationDetails :: "string optional"
  coordinates :: "(real \<times> real) optional"
  images :: "string list optional"
  contactName :: string
  contactEmail :: string

text \<open>
  Modelled from the spec: the type \<open>Item\<close> of the missing schema module, the payload with
  the identifier, the creation time and the view count that the store assigns.
\<close>

record item = insertItem +
  id' :: int
  createdAt :: int
  views :: int

subsection \<open>The JavaScript Map\<close>

fun Map_get :: "('k \<times> 'v) list \<Rightarrow> 'k \<Rightarrow> 'v option" where
  "Map_get [] k = None"
| "Map_get ((k', v) # m) k = (if k' = k then Some v else Map_get m k)"

text \<open>\<open>set\<close> keeps the position of a key the map already has and appends a new key.\<close>

fun Map_set :: "('k \<times> 'v) list \<Rightarrow> 'k \<Rightarrow> 'v \<Rightarrow> ('k \<times> 'v) list" where
  "Map_set [] k v = [(k, v)]"
| "Map_set ((k', v') # m) k v = (if k' = k then (k, v) # m else (k', v') # Map_set m k v)"

text \<open>\<open>delete\<close> returns whether the key was there.\<close>

definition Map_has :: "('k \<times> 'v) list \<Rightarrow> 'k \<Rightarrow> bool" where
  "Map_has m k = (Map_get m k \<noteq> None)"

definition Map_delete :: "('k \<times> 'v) list \<Rightarrow> 'k \<Rightarrow> bool \<times> ('k \<times> 'v) list" where
  "Map_delete m k = (Map_has m k, filter (\<lambda>e. fst e \<noteq> k) m)"

definition Map_values :: "('k \<times> 'v) list \<Rightarrow> 'v list" where
  "Map_values m = map snd m"

text \<open>\<open>Array.prototype.find\<close>: the first element that satisfies the predicate.\<close>

fun Array_find :: "('a \<Rightarrow> bool) \<Rightarrow> 'a list \<Rightarrow> 'a option" where
  "Array_find p [] = None"
| "Array_find p (x # xs) = (if p x then Some x else Array_find p xs)"

subsection \<open>Sorting and slicing arrays\<close>

text \<open>
  \<open>Array.prototype.sort\<close> with a comparator is a stable sort. For a consistent
  comparator the result of a stable sort is unique, so the insertion sort below
  returns what any engine returns: \<open>x\<close> is put before the first \<open>y\<close> that the comparator
  does not order strictly before it.
\<close>

fun insert_by :: "('a \<Rightarrow> 'a \<Rightarrow> int) \<Rightarrow> 'a \<Rightarrow> 'a list \<Rightarrow> 'a list" where
  "insert_by cmp x [] = [x]"
| "insert_by cmp x (y # ys) =
     (if cmp x y \<le> 0 then x # y # ys else y # insert_by cmp x ys)"

definition Array_sort :: "('a \<Rightarrow> 'a \<Rightarrow> int) \<Rightarrow> 'a list \<Rightarrow> 'a list" where
  "Array_sort cmp xs = foldr (insert_by cmp) xs []"

text \<open>The comparator \<open>(a, b) => b.createdAt.getTime() - a.createdAt.getTime()\<close>.\<close>

definition byRecent :: "item \<Rightarrow> item \<Rightarrow> int" where
  "byRecent a b = createdAt b - createdAt a"

definition byRecentMessage :: "message \<Rightarrow> message \<Rightarrow> int" where
  "byRecentMessage a b = message.createdAt b - message.createdAt a"

text \<open>
  \<open>Array.prototype.slice(start, end)\<close>: a negative index counts from the end of the
  array, both indices are clamped to the array, and an end before the start gives the
  empty array.
\<close>

definition relative_index :: "int \<Rightarrow> int \<Rightarrow> int" where
  "relative_index len i = (if i < 0 then max (len + i) 0 else min i len)"

definition Array_slice :: "'a list \<Rightarrow> int \<Rightarrow> int \<Rightarrow> 'a list" where
  "Array_slice xs start end' =
     (let len = int (length xs);
          k = relative_index len start;
          final = relative_index len end'
      in take (nat (final - k)) (drop (nat k) xs))"

subsection \<open>The store\<close>

record MemStorage =
  users :: "(int \<times> user) list"
  items :: "(int \<times> item) list"
  messages :: "(int \<times> message) list"
  userIdCounter :: int
  itemIdCounter :: int
  messageIdCounter :: int

text \<open>The constructor.\<close>

definition new_MemStorage :: MemStorage where
  "new_MemStorage =
     \<lparr>users = [], items = [], messages = [],
      userIdCounter = 1, itemIdCounter = 1, messageIdCounter = 1\<rparr>"

subsection \<open>User methods\<close>

definition getUser :: "MemStorage \<Rightarrow> int \<Rightarrow> user option" where
  "getUser st i = Map_get (users st) i"

definition getUserByUsername :: "MemStorage \<Rightarrow> string \<Rightarrow> user option" where
  "getUserByUsername st n = Array_find (\<lambda>u. username u = n) (Map_values (users st))"

definition getUserByEmail :: "MemStorage \<Rightarrow> string \<Rightarrow> user option" where
  "getUserByEmail st e = Array_find (\<lambda>u. email u = e) (Map_values (users st))"

definition createUser :: "int \<Rightarrow> MemStorage \<Rightarrow> insertUser \<Rightarrow> user \<times> MemStorage" where
  "createUser now st insertUser =
     (let i = userIdCounter st;
          st1 = st\<lparr>userIdCounter := userIdCounter st + 1\<rparr>;
          u = insertUser.extend insertUser (user.fields i now)
      in (u, st1\<lparr>users := Map_set (users st1) i u\<rparr>))"

subsection \<open>Item methods\<close>

definition getItem :: "MemStorage \<Rightarrow> int \<Rightarrow> item option" where
  "getItem st i = Map_get (items st) i"

definition getItems :: "MemStorage \<Rightarrow> getItemsOptions option \<Rightarrow> item list" where
  "getItems st options =
     (let items0 = Map_values (items st) in
      case options of
        None \<Rightarrow> items0
      | Some opts \<Rightarrow>
          (let items1 = (if truthy_string (getItemsOptions.status opts)
                         then filter (\<lambda>i. Some (status i) = getItemsOptions.status opts) items0
                         else items0);
               items2 = (if truthy_string (getItemsOptions.type opts)
                         then filter (\<lambda>i. Some (type i) = getItemsOptions.type opts) items1
                         else items1);
               items3 = (if getItemsOptions.userId opts \<noteq> None
                         then filter (\<lambda>i. Some (insertItem.userId i) = getItemsOptions.userId opts) items2
                         else items2);
               items4 = Array_sort byRecent items3
           in if truthy_number (limit opts)
              then (let off = (if truthy_number (offset opts) then the (offset opts) else 0)
                    in Array_slice items4 off (off + the (limit opts)))
              else items4))"

text \<open>The object \<open>{ ...insertItem, id, createdAt, views, images, locationDetails }\<close>.\<close>

definition stored_as :: "insertItem \<Rightarrow> int \<Rightarrow> int \<Rightarrow> item" where
  "stored_as insertItem i now =
     (let views0 = 0;
          images1 = array_or_null (images insertItem);
          locationDetails1 = string_or_null (locationDetails insertItem)
      in insertItem.extend
           (insertItem\<lparr>images := images1, locationDetails := locationDetails1\<rparr>)
           (item.fields i now views0))"

definition createItem :: "int \<Rightarrow> MemStorage \<Rightarrow> insertItem \<Rightarrow> item \<times> MemStorage" where
  "createItem now st insertItem =
     (let i = itemIdCounter st;
          st1 = st\<lparr>itemIdCounter := itemIdCounter st + 1\<rparr>;
          it = stored_as insertItem i now
      in (it, st1\<lparr>items := Map_set (items st1) i it\<rparr>))"

text \<open>
  One key of the spread \<open>{ ...item, ...updateData }\<close>: a key that \<open>updateData\<close> has
  overwrites the key of the item, a key that it lacks leaves it.
\<close>

fun spread_key :: "'a \<Rightarrow> 'a option \<Rightarrow> 'a" where
  "spread_key old None = old"
| "spread_key old (Some new) = new"

definition spread_item :: "item \<Rightarrow> partialItem \<Rightarrow> item" where
  "spread_item it updateData =
     \<lparr>userId = spread_key (insertItem.userId it) (partialItem.userId updateData),
      name = spread_key (name it) (partialItem.name updateData),
      type = spread_key (type it) (partialItem.type updateData),
      description = spread_key (description it) (partialItem.description updateData),
      status = spread_key (status it) (partialItem.status updateData),
      date = spread_key (date it) (partialItem.date updateData),
      location = spread_key (location it) (partialItem.location updateData),
      locationDetails = spread_key (locationDetails it) (partialItem.locationDetails updateData),
      coordinates = spread_key (coordinates it) (partialItem.coordinates updateData),
      images = spread_key (images it) (partialItem.images updateData),
      contactName = spread_key (contactName it) (partialItem.contactName updateData),
      contactEmail = spread_key (contactEmail it) (partialItem.contactEmail updateData),
      id' = spread_key (id' it) (partialItem.id' updateData),
      createdAt = spread_key (createdAt it) (partialItem.createdAt updateData),
      views = spread_key (views it) (partialItem.views updateData)\<rparr>"

definition updateItem :: "MemStorage \<Rightarrow> int \<Rightarrow> partialItem \<Rightarrow> item option \<times> MemStorage" where
  "updateItem st i updateData =
     (case getItem st i of
        None \<Rightarrow> (None, st)
      | Some it \<Rightarrow>
          (let updatedItem = spread_item it updateData
           in (Some updatedItem, st\<lparr>items := Map_set (items st) i updatedItem\<rparr>)))"

definition deleteItem :: "MemStorage \<Rightarrow> int \<Rightarrow> bool \<times> MemStorage" where
  "deleteItem st i =
     (let (existed, items1) = Map_delete (items st) i in (existed, st\<lparr>items := items1\<rparr>))"

definition incrementItemViews :: "MemStorage \<Rightarrow> int \<Rightarrow> MemStorage" where
  "incrementItemViews st i =
     (case getItem st i of
        None \<Rightarrow> st
      | Some it \<Rightarrow> st\<lparr>items := Map_set (items st) i (it\<lparr>views := views it + 1\<rparr>)\<rparr>)"

text \<open>
  \<open>s.includes(sub)\<close>: \<open>sub\<close> occurs in \<open>s\<close> as a contiguous run, that is, \<open>sub\<close>
  starts \<open>s\<close> or one of its suffixes.
\<close>

fun String_startsWith :: "string \<Rightarrow> string \<Rightarrow> bool" where
  "String_startsWith s [] = True"
| "String_startsWith [] (c # cs) = False"
| "String_startsWith (x # xs) (c # cs) = (x = c \<and> String_startsWith xs cs)"

fun String_includes :: "string \<Rightarrow> string \<Rightarrow> bool" where
  "String_includes [] sub = (sub = [])"
| "String_includes (x # xs) sub = (String_startsWith (x # xs) sub \<or> String_includes xs sub)"

definition searchItems ::
  "(string \<Rightarrow> string) \<Rightarrow> (int \<Rightarrow> 'd) \<Rightarrow> MemStorage \<Rightarrow> string \<Rightarrow> searchItemsOptions option
     \<Rightarrow> item list" where
  "searchItems toLowerCase toDateString st query options =
     (let items0 = Map_values (items st);
          items1 = (if query \<noteq> []
                    then (let lowerQuery = toLowerCase query
                          in filter (\<lambda>i. String_includes (toLowerCase (name i)) lowerQuery
                                        \<or> String_includes (toLowerCase (description i)) lowerQuery
                                        \<or> String_includes (toLowerCase (location i)) lowerQuery) items0)
                    else items0);
          items6 =
            (case options of
               None \<Rightarrow> items1
             | Some opts \<Rightarrow>
                 (let items2 = (if truthy_string (searchItemsOptions.status opts)
                                then filter (\<lambda>i. Some (status i) = searchItemsOptions.status opts) items1
                                else items1);
                      items3 = (if truthy_string (searchItemsOptions.type opts)
                                then filter (\<lambda>i. Some (type i) = searchItemsOptions.type opts) items2
                                else items2);
                      items4 = (case searchItemsOptions.date opts of
                                  Some d \<Rightarrow> filter (\<lambda>i. toDateString (date i) = toDateString d) items3
                                | None \<Rightarrow> items3);
                      items5 = (if truthy_string (searchItemsOptions.location opts)
                                then filter (\<lambda>i. String_includes (toLowerCase (location i))
                                                   (toLowerCase (the (searchItemsOptions.location opts))))
                                       items4
                                else items4)
                  in items5))
      in Array_sort byRecent items6)"

subsection \<open>Message methods\<close>

definition getMessage :: "MemStorage \<Rightarrow> int \<Rightarrow> message option" where
  "getMessage st i = Map_get (messages st) i"

definition getMessages :: "MemStorage \<Rightarrow> int \<Rightarrow> message list" where
  "getMessages st u =
     Array_sort byRecentMessage
       (filter (\<lambda>m. toUserId m = u \<or> fromUserId m = u) (Map_values (messages st)))"

definition getMessagesByItem :: "MemStorage \<Rightarrow> int \<Rightarrow> message list" where
  "getMessagesByItem st i =
     Array_sort byRecentMessage (filter (\<lambda>m. itemId m = i) (Map_values (messages st)))"

definition createMessage :: "int \<Rightarrow> MemStorage \<Rightarrow> insertMessage \<Rightarrow> message \<times> MemStorage" where
  "createMessage now st insertMessage =
     (let i = messageIdCounter st;
          st1 = st\<lparr>messageIdCounter := messageIdCounter st + 1\<rparr>;
          m = insertMessage.extend insertMessage (message.fields i now False)
      in (m, st1\<lparr>messages := Map_set (messages st1) i m\<rparr>))"

definition markMessageAsRead :: "MemStorage \<Rightarrow> int \<Rightarrow> bool \<times> MemStorage" where
  "markMessageAsRead st i =
     (case getMessage st i of
        None \<Rightarrow> (False, st)
      | Some m \<Rightarrow> (True, st\<lparr>messages := Map_set (messages st) i (m\<lparr>read := True\<rparr>)\<rparr>))"

subsection \<open>Sequences of calls\<close>

text \<open>
  A call of a method that writes to the store, with its arguments (the first argument
  of a creating call is the time at which it runs), and what the call returns.
\<close>

datatype call =
    CreateUser int insertUser
  | CreateItem int insertItem
  | UpdateItem int partialItem
  | DeleteItem int
  | IncrementItemViews int
  | CreateMessage int insertMessage
  | MarkMessageAsRead int

datatype returned =
    RUser user
  | RItem item
  | RItemOption "item option"
  | RBool bool
  | RVoid
  | RMessage message

fun perform :: "MemStorage \<Rightarrow> call \<Rightarrow> returned \<times> MemStorage" where
  "perform st (CreateUser now d) = (let (u, st1) = createUser now st d in (RUser u, st1))"
| "perform st (CreateItem now d) = (let (it, st1) = createItem now st d in (RItem it, st1))"
| "perform st (UpdateItem i d) = (let (r, st1) = updateItem st i d in (RItemOption r, st1))"
| "perform st (DeleteItem i) = (let (b, st1) = deleteItem st i in (RBool b, st1))"
| "perform st (IncrementItemViews i) = (RVoid, incrementItemViews st i)"
| "perform st (CreateMessage now d) = (let (m, st1) = createMessage now st d in (RMessage m, st1))"
| "perform st (MarkMessageAsRead i) = (let (b, st1) = markMessageAsRead st i in (RBool b, st1))"

fun run :: "MemStorage \<Rightarrow> call list \<Rightarrow> returned list \<times> MemStorage" where
  "run st [] = ([], st)"
| "run st (c # cs) =
     (let (r, st1) = perform st c; (rs, st2) = run st1 cs in (r # rs, st2))"

text \<open>The identifiers that the creating calls of a run handed out, in the order of the calls.\<close>

fun userIds :: "returned list \<Rightarrow> int list" where
  "userIds [] = []"
| "userIds (RUser u # rs) = user.id' u # userIds rs"
| "userIds (_ # rs) = userIds rs"

fun itemIds :: "returned list \<Rightarrow> int list" where
  "itemIds [] = []"
| "itemIds (RItem it # rs) = id' it # itemIds rs"
| "itemIds (_ # rs) = itemIds rs"

fun messageIds :: "returned list \<Rightarrow> int list" where
  "messageIds [] = []"
| "messageIds (RMessage m # rs) = message.id' m # messageIds rs"
| "messageIds (_ # rs) = messageIds rs"

subsection \<open>Sample data\<close>

text \<open>
  The store after the calls of \<open>initDemoData\<close>: the demo user and the three sample
  listings (descriptions shortened), created one second apart.
\<close>

definition demoUser :: insertUser where
  "demoUser =
     \<lparr>username = ''demouser'', password = ''password'', email = ''demo@example.com'',
      name = ''Demo User''\<rparr>"

definition sampleItem :: "string \<Rightarrow> string \<Rightarrow> string \<Rightarrow> string \<Rightarrow> int \<Rightarrow> string \<Rightarrow> insertItem" where
  "sampleItem n t d s day loc =
     \<lparr>userId = 1, name = n, type = t, description = d, status = s, date = day,
      location = loc, locationDetails = Undefined, coordinates = Undefined,
      images = Undefined, contactName = ''Raj Sharma'', contactEmail = ''raj@example.com''\<rparr>"

definition backpack :: insertItem where
  "backpack =
     sampleItem ''Navy Blue Backpack'' ''Personal Items'' ''Lost near the lake area''
       ''lost'' 172800000 ''India Gate, New Delhi''"

definition carKeys :: insertItem where
  "carKeys =
     sampleItem ''Car Keys with Red Keychain'' ''Personal Items'' ''Found at a table''
       ''found'' 259200000 ''MG Road, Bangalore''"

definition iPad :: insertItem where
  "iPad =
     sampleItem ''iPad Pro with Black Case'' ''Electronics'' ''Left on the metro''
       ''lost'' 327600000 ''Rajiv Chowk Metro Station, Delhi''"

definition initDemoData :: "call list" where
  "initDemoData =
     [CreateUser 1000 demoUser, CreateItem 2000 backpack, CreateItem 3000 carKeys,
      CreateItem 4000 iPad]"

definition demoStore :: MemStorage where
  "demoStore =
     \<lparr>users = [(1, insertUser.extend demoUser (user.fields 1 1000))],
      items = [(1, stored_as backpack 1 2000), (2, stored_as carKeys 2 3000), (3, stored_as iPad 3 4000)],
      messages = [],
      userIdCounter = 2, itemIdCounter = 4, messageIdCounter = 1\<rparr>"

text \<open>A message about the first listing, and calls that send it and mark it as read.\<close>

definition demoMessage :: insertMessage where
  "demoMessage = \<lparr>itemId = 1, fromUserId = 2, toUserId = 1, content = ''Is it still lost?''\<rparr>"

definition sendAndRead :: "call list" where
  "sendAndRead = [CreateMessage 5000 demoMessage, MarkMessageAsRead 1]"

definition laterCalls :: "call list" where
  "laterCalls =
     [CreateMessage 6000 demoMessage, DeleteItem 1, CreateItem 7000 carKeys,
      CreateUser 8000 demoUser, MarkMessageAsRead 1, IncrementItemViews 2]"

text \<open>Options objects without any key.\<close>

definition noOptions :: getItemsOptions where
  "noOptions =
     \<lparr>getItemsOptions.status = None, getItemsOptions.type = None,
      getItemsOptions.userId = None, limit = None, offset = None\<rparr>"

definition noSearchOptions :: searchItemsOptions where
  "noSearchOptions =
     \<lparr>searchItemsOptions.status = None, searchItemsOptions.type = None,
      searchItemsOptions.date = None, searchItemsOptions.location = None\<rparr>"

definition noKeys :: partialItem where
  "noKeys =
     \<lparr>partialItem.userId = None, partialItem.name = None, partialItem.type = None,
      partialItem.description = None, partialItem.status = None, partialItem.date = None,
      partialItem.location = None, partialItem.locationDetails = None,
      partialItem.coordinates = None, partialItem.images = None,
      partialItem.contactName = None, partialItem.contactEmail = None,
      partialItem.id' = None, partialItem.createdAt = None, partialItem.views = None\<rparr>"

text \<open>
  The runtime functions at which the examples are evaluated: lower-casing of the ASCII
  letters, and the calendar day of a time value in UTC as the number of days since the
  epoch.
\<close>

definition lower_char :: "char \<Rightarrow> char" where
  "lower_char c =
     (case map_of (zip ''ABCDEFGHIJKLMNOPQRSTUVWXYZ'' ''abcdefghijklmnopqrstuvwxyz'') c of
        Some l \<Rightarrow> l
      | None \<Rightarrow> c)"

definition toLowerCase_ascii :: "string \<Rightarrow> string" where
  "toLowerCase_ascii s = map lower_char s"

definition toDateString_utc :: "int \<Rightarrow> int" where
  "toDateString_utc t = t div 86400000"

subsection \<open>The listing and the search as the specification words them\<close>

text \<open>
  These two functions follow the words of the specification, not the code: a filter
  applies when its key is present, whatever its value, and the sorted result is sliced
  from \<open>offset\<close> (default 0) to \<open>offset + limit\<close> when \<open>limit\<close> is present. They are
  compared with \<open>getItems\<close> and \<open>searchItems\<close> below.
\<close>

fun when_present :: "'a option \<Rightarrow> ('a \<Rightarrow> bool) \<Rightarrow> bool" where
  "when_present None p = True"
| "when_present (Some v) p = p v"

definition claimed_getItems :: "MemStorage \<Rightarrow> getItemsOptions option \<Rightarrow> item list" where
  "claimed_getItems st options =
     (case options of
        None \<Rightarrow> Map_values (items st)
      | Some opts \<Rightarrow>
          (let passing = filter (\<lambda>i. when_present (getItemsOptions.status opts) (\<lambda>s. status i = s)
                                    \<and> when_present (getItemsOptions.type opts) (\<lambda>t. type i = t)
                                    \<and> when_present (getItemsOptions.userId opts)
                                        (\<lambda>u. insertItem.userId i = u))
                           (Map_values (items st));
               sorted = Array_sort byRecent passing
           in case limit opts of
                None \<Rightarrow> sorted
              | Some l \<Rightarrow>
                  (let off = (case offset opts of None \<Rightarrow> 0 | Some f \<Rightarrow> f)
                   in take (nat l) (drop (nat off) sorted))))"

definition claimed_searchItems ::
  "(string \<Rightarrow> string) \<Rightarrow> (int \<Rightarrow> 'd) \<Rightarrow> MemStorage \<Rightarrow> string \<Rightarrow> searchItemsOptions option
     \<Rightarrow> item list" where
  "claimed_searchItems toLowerCase toDateString st query options =
     Array_sort byRecent
       (filter (\<lambda>i. (query = []
                       \<or> String_includes (toLowerCase (name i)) (toLowerCase query)
                       \<or> String_includes (toLowerCase (description i)) (toLowerCase query)
                       \<or> String_includes (toLowerCase (location i)) (toLowerCase query))
                    \<and> when_present options (\<lambda>opts.
                          when_present (searchItemsOptions.status opts) (\<lambda>s. status i = s)
                        \<and> when_present (searchItemsOptions.type opts) (\<lambda>t. type i = t)
                        \<and> when_present (searchItemsOptions.date opts)
                            (\<lambda>d. toDateString (date i) = toDateString d)
                        \<and> when_present (searchItemsOptions.location opts)
                            (\<lambda>l. String_includes (toLowerCase (location i)) (toLowerCase l))))
          (Map_values (items st)))"

section \<open>Facts about maps, sorting and slicing\<close>

lemma Map_get_map_of: "Map_get m k = map_of m k"
  by (induction m) auto

lemma Map_get_None_iff: "Map_get m k = None \<longleftrightarrow> k \<notin> fst ` set m"
  by (simp add: Map_get_map_of map_of_eq_None_iff)

lemma Map_get_Some_mem: "Map_get m k = Some v \<Longrightarrow> (k, v) \<in> set m"
  by (induction m) (auto split: if_splits)

lemma Map_get_set: "Map_get (Map_set m k v) j = (if j = k then Some v else Map_get m j)"
  by (induction m) auto

lemma Map_set_keys_present: "Map_get m k \<noteq> None \<Longrightarrow> map fst (Map_set m k v) = map fst m"
  by (induction m) auto

lemma Map_set_keys_absent: "Map_get m k = None \<Longrightarrow> Map_set m k v = m @ [(k, v)]"
  by (induction m) (auto split: if_splits)

lemma Map_set_keys: "fst ` set (Map_set m k v) = insert k (fst ` set m)"
proof (induction m)
  case Nil
  show ?case by simp
next
  case (Cons e m)
  show ?case
  proof (cases "fst e = k")
    case True
    then show ?thesis by (cases e) auto
  next
    case False
    then show ?thesis using Cons.IH by (cases e) (simp add: insert_commute)
  qed
qed

lemma Map_get_filter: "Map_get (filter (\<lambda>e. fst e \<noteq> k) m) j = (if j = k then None else Map_get m j)"
  by (induction m) auto

lemma filter_absent: "Map_get m k = None \<Longrightarrow> filter (\<lambda>e. fst e \<noteq> k) m = m"
  by (induction m) (auto split: if_splits)

lemma Array_find_None_iff: "Array_find p xs = None \<longleftrightarrow> (\<forall>x \<in> set xs. \<not> p x)"
  by (induction xs) auto

lemma Array_find_Some: "Array_find p xs = Some x \<Longrightarrow> p x \<and> x \<in> set xs"
  by (induction xs) (auto split: if_splits)

lemma insert_by_insort: "insert_by (\<lambda>a b. k b - k a) x xs = insort_key (\<lambda>a. - k a) x (xs::'a list)" for k :: "'a \<Rightarrow> int"
  by (induction xs) auto

lemma Array_sort_sort_key: "Array_sort (\<lambda>a b. k b - k a) xs = sort_key (\<lambda>a. - k a) xs" for k :: "'a \<Rightarrow> int"
proof -
  have "insert_by (\<lambda>a b. k b - k a) = insort_key (\<lambda>a. - k a)"
    by (intro ext) (rule insert_by_insort)
  then show ?thesis by (simp add: Array_sort_def sort_key_def)
qed

lemma Array_sort_byRecent: "Array_sort byRecent xs = sort_key (\<lambda>i. - createdAt i) xs"
  using Array_sort_sort_key [of createdAt xs] by (simp add: byRecent_def [abs_def])

lemma sorted_byRecent: "sorted_wrt (\<lambda>a b. createdAt b \<le> createdAt a) (Array_sort byRecent xs)"
proof -
  have "sorted (map (\<lambda>i. - createdAt i) (sort_key (\<lambda>i. - createdAt i) xs))"
    by (rule sorted_sort_key)
  then show ?thesis
    by (simp add: Array_sort_byRecent sorted_map)
qed

lemma mset_byRecent: "mset (Array_sort byRecent xs) = mset xs"
  by (simp add: Array_sort_byRecent)

lemma stable_byRecent: "filter (\<lambda>i. createdAt i = t) (Array_sort byRecent xs) = filter (\<lambda>i. createdAt i = t) xs"
  using sort_key_stable [of "\<lambda>i. - createdAt i" "- t" xs] by (simp add: Array_sort_byRecent)

lemma demoStore_run: "snd (run new_MemStorage initDemoData) = demoStore"
  by (simp add: initDemoData_def new_MemStorage_def demoStore_def createUser_def createItem_def
      Let_def)

lemma Array_slice_nonneg: "0 \<le> start \<Longrightarrow> 0 \<le> n \<Longrightarrow> Array_slice xs start (start + n) = take (nat n) (drop (nat start) xs)"
  by (auto simp: Array_slice_def relative_index_def Let_def min_def)

lemma String_startsWith_iff: "String_startsWith s sub \<longleftrightarrow> (\<exists>r. s = sub @ r)"
  by (induction s sub rule: String_startsWith.induct) auto

lemma String_includes_iff: "String_includes s sub \<longleftrightarrow> (\<exists>p r. s = p @ sub @ r)"
proof (induction s)
  case Nil
  show ?case by auto
next
  case (Cons x xs)
  show ?case
  proof
    assume "String_includes (x # xs) sub"
    then consider "String_startsWith (x # xs) sub" | "String_includes xs sub" by auto
    then show "\<exists>p r. x # xs = p @ sub @ r"
    proof cases
      case 1
      then obtain r where "x # xs = sub @ r" by (auto simp: String_startsWith_iff)
      then have "x # xs = [] @ sub @ r" by simp
      then show ?thesis by blast
    next
      case 2
      then obtain p r where "xs = p @ sub @ r" using Cons.IH by auto
      then have "x # xs = (x # p) @ sub @ r" by simp
      then show ?thesis by blast
    qed
  next
    assume "\<exists>p r. x # xs = p @ sub @ r"
    then obtain p r where eq: "x # xs = p @ sub @ r" by blast
    show "String_includes (x # xs) sub"
    proof (cases p)
      case Nil
      with eq have "String_startsWith (x # xs) sub" by (auto simp: String_startsWith_iff)
      then show ?thesis by simp
    next
      case (Cons y ys)
      with eq have "xs = ys @ sub @ r" by simp
      then have "String_includes xs sub" using Cons.IH by blast
      then show ?thesis by simp
    qed
  qed
qed

section \<open>Reads that find nothing, and deletion\<close>

text \<open>
  Claim C9. The reading methods have no failing branch: \<open>getUser\<close>, \<open>getItem\<close> and
  \<open>getMessage\<close> return the absent value exactly when the identifier is not a key of
  the map, \<open>getUserByUsername\<close> and \<open>getUserByEmail\<close> exactly when no stored user has
  that name or address. \<open>deleteItem\<close> returns whether the identifier was a key;
  afterwards it is not one, every other item is as before, and for a missing identifier
  the store is unchanged.
\<close>

theorem reads_absent_deleteItem_boolean:
  "(getUser st i = None \<longleftrightarrow> i \<notin> fst ` set (users st)) \<and>
   (getUserByUsername st n = None \<longleftrightarrow> (\<forall>u \<in> set (Map_values (users st)). username u \<noteq> n)) \<and>
   (getUserByEmail st e = None \<longleftrightarrow> (\<forall>u \<in> set (Map_values (users st)). email u \<noteq> e)) \<and>
   (getItem st i = None \<longleftrightarrow> i \<notin> fst ` set (items st)) \<and>
   (getMessage st i = None \<longleftrightarrow> i \<notin> fst ` set (messages st)) \<and>
   fst (deleteItem st i) = (i \<in> fst ` set (items st)) \<and>
   getItem (snd (deleteItem st i)) i = None \<and>
   (\<forall>j. j \<noteq> i \<longrightarrow> getItem (snd (deleteItem st i)) j = getItem st j) \<and>
   (i \<notin> fst ` set (items st) \<longrightarrow> snd (deleteItem st i) = st)"
proof -
  have del: "snd (deleteItem st i) = st\<lparr>items := filter (\<lambda>e. fst e \<noteq> i) (items st)\<rparr>"
    by (simp add: deleteItem_def Map_delete_def)
  have "fst (deleteItem st i) = (i \<in> fst ` set (items st))"
    by (simp add: deleteItem_def Map_delete_def Map_has_def Map_get_None_iff)
  moreover have "getItem (snd (deleteItem st i)) j = (if j = i then None else getItem st j)" for j
    by (simp add: del getItem_def Map_get_filter)
  moreover have "i \<notin> fst ` set (items st) \<longrightarrow> snd (deleteItem st i) = st"
    by (simp add: del filter_absent Map_get_None_iff)
  ultimately show ?thesis
    by (simp add: getUser_def getUserByUsername_def getUserByEmail_def getItem_def
        getMessage_def Map_get_None_iff Array_find_None_iff)
qed

theorem reads_absent_deleteItem_boolean_witness:
  "getUser demoStore 7 = None \<and> getUserByUsername demoStore ''nobody'' = None \<and>
   getItem demoStore 7 = None \<and> getMessage demoStore 7 = None \<and>
   fst (deleteItem demoStore 7) = False \<and> snd (deleteItem demoStore 7) = demoStore \<and>
   fst (deleteItem demoStore 2) = True \<and> getItem (snd (deleteItem demoStore 2)) 2 = None \<and>
   getItem (snd (deleteItem demoStore 2)) 3 = getItem demoStore 3"
  using reads_absent_deleteItem_boolean [of demoStore 7 "''nobody''" "''nobody''"]
    reads_absent_deleteItem_boolean [of demoStore 2 "''nobody''" "''nobody''"]
  by (simp add: demoStore_def Map_values_def insertUser.extend_def user.fields_def demoUser_def)

section \<open>Options that are present but falsy\<close>

text \<open>
  Claim C10. \<open>getItems\<close> and \<open>searchItems\<close> test their options by truthiness: a
  \<open>status\<close>, \<open>type\<close> or (for \<open>searchItems\<close>) \<open>location\<close> that is the empty string gives
  the result that the same call gives without that key, so no item is excluded by it,
  and \<open>getItems\<close> with \<open>limit\<close> equal to 0 gives the result of the call without
  \<open>limit\<close>, the whole filtered and sorted array.
\<close>

theorem falsy_options_are_absent:
  "getItems st (Some (opts\<lparr>getItemsOptions.status := Some []\<rparr>)) =
     getItems st (Some (opts\<lparr>getItemsOptions.status := None\<rparr>)) \<and>
   getItems st (Some (opts\<lparr>getItemsOptions.type := Some []\<rparr>)) =
     getItems st (Some (opts\<lparr>getItemsOptions.type := None\<rparr>)) \<and>
   getItems st (Some (opts\<lparr>limit := Some 0\<rparr>)) = getItems st (Some (opts\<lparr>limit := None\<rparr>)) \<and>
   searchItems lc ds st q (Some (sopts\<lparr>searchItemsOptions.status := Some []\<rparr>)) =
     searchItems lc ds st q (Some (sopts\<lparr>searchItemsOptions.status := None\<rparr>)) \<and>
   searchItems lc ds st q (Some (sopts\<lparr>searchItemsOptions.type := Some []\<rparr>)) =
     searchItems lc ds st q (Some (sopts\<lparr>searchItemsOptions.type := None\<rparr>)) \<and>
   searchItems lc ds st q (Some (sopts\<lparr>searchItemsOptions.location := Some []\<rparr>)) =
     searchItems lc ds st q (Some (sopts\<lparr>searchItemsOptions.location := None\<rparr>))"
proof (intro conjI)
  show "getItems st (Some (opts\<lparr>getItemsOptions.status := Some []\<rparr>)) =
     getItems st (Some (opts\<lparr>getItemsOptions.status := None\<rparr>))"
    by (simp add: getItems_def Let_def)
  show "getItems st (Some (opts\<lparr>getItemsOptions.type := Some []\<rparr>)) =
     getItems st (Some (opts\<lparr>getItemsOptions.type := None\<rparr>))"
    by (simp add: getItems_def Let_def)
  show "getItems st (Some (opts\<lparr>limit := Some 0\<rparr>)) = getItems st (Some (opts\<lparr>limit := None\<rparr>))"
    by (simp add: getItems_def Let_def)
  show "searchItems lc ds st q (Some (sopts\<lparr>searchItemsOptions.status := Some []\<rparr>)) =
     searchItems lc ds st q (Some (sopts\<lparr>searchItemsOptions.status := None\<rparr>))"
    by (simp add: searchItems_def Let_def split: option.splits)
  show "searchItems lc ds st q (Some (sopts\<lparr>searchItemsOptions.type := Some []\<rparr>)) =
     searchItems lc ds st q (Some (sopts\<lparr>searchItemsOptions.type := None\<rparr>))"
    by (simp add: searchItems_def Let_def split: option.splits)
  show "searchItems lc ds st q (Some (sopts\<lparr>searchItemsOptions.location := Some []\<rparr>)) =
     searchItems lc ds st q (Some (sopts\<lparr>searchItemsOptions.location := None\<rparr>))"
    by (simp add: searchItems_def Let_def split: option.splits)
qed

theorem falsy_options_are_absent_witness:
  "map id' (getItems demoStore (Some (noOptions\<lparr>getItemsOptions.status := Some [], limit := Some 0\<rparr>))) = [3, 2, 1] \<and>
  map id' (getItems demoStore (Some (noOptions\<lparr>getItemsOptions.status := None, limit := None\<rparr>))) = [3, 2, 1]"
  using falsy_options_are_absent [of demoStore "noOptions\<lparr>limit := Some 0\<rparr>"]
    falsy_options_are_absent [of demoStore "noOptions\<lparr>getItemsOptions.status := None\<rparr>"]
  by (simp add: getItems_def noOptions_def demoStore_def Map_values_def Array_sort_def
      byRecent_def stored_as_def insertItem.extend_def item.fields_def)

section \<open>Counting views\<close>

lemma incrementItemViews_Some:
  "getItem st i = Some it \<Longrightarrow>
   incrementItemViews st i = st\<lparr>items := Map_set (items st) i (it\<lparr>views := views it + 1\<rparr>)\<rparr>"
  by (simp add: incrementItemViews_def)

lemma incrementItemViews_funpow:
  "getItem st i = Some it \<Longrightarrow>
   getItem (((\<lambda>s. incrementItemViews s i) ^^ n) st) i = Some (it\<lparr>views := views it + int n\<rparr>)"
proof (induction n)
  case 0
  then show ?case by simp
next
  case (Suc n)
  then have "getItem (((\<lambda>s. incrementItemViews s i) ^^ n) st) i = Some (it\<lparr>views := views it + int n\<rparr>)"
    by simp
  then show ?case
    by (simp add: incrementItemViews_Some getItem_def Map_get_set add.assoc)
qed

text \<open>
  Claim C6. When an item is stored under the identifier, \<open>incrementItemViews\<close> leaves
  under it the same item with \<open>views\<close> one higher; every other item, the order of the
  map, the users, the messages and the counters are as before, and after \<open>n\<close> calls
  \<open>views\<close> is \<open>n\<close> higher, so an item created with no views has \<open>n\<close>. When no item is
  stored under the identifier, the call returns the store unchanged.
\<close>

theorem incrementItemViews_adds_one:
  "(getItem st i = Some it \<longrightarrow>
      getItem (incrementItemViews st i) i = Some (it\<lparr>views := views it + 1\<rparr>) \<and>
      (\<forall>j. j \<noteq> i \<longrightarrow> getItem (incrementItemViews st i) j = getItem st j) \<and>
      map fst (items (incrementItemViews st i)) = map fst (items st) \<and>
      incrementItemViews st i = st\<lparr>items := items (incrementItemViews st i)\<rparr> \<and>
      getItem (((\<lambda>s. incrementItemViews s i) ^^ n) st) i = Some (it\<lparr>views := views it + int n\<rparr>)) \<and>
   (getItem st i = None \<longrightarrow> incrementItemViews st i = st)"
proof (intro conjI impI)
  assume g: "getItem st i = Some it"
  show "getItem (incrementItemViews st i) i = Some (it\<lparr>views := views it + 1\<rparr>)"
    using g by (simp add: incrementItemViews_Some getItem_def Map_get_set)
  show "\<forall>j. j \<noteq> i \<longrightarrow> getItem (incrementItemViews st i) j = getItem st j"
    using g by (simp add: incrementItemViews_Some getItem_def Map_get_set)
  show "map fst (items (incrementItemViews st i)) = map fst (items st)"
    using g by (simp add: incrementItemViews_Some getItem_def Map_set_keys_present)
  show "incrementItemViews st i = st\<lparr>items := items (incrementItemViews st i)\<rparr>"
    using g by (simp add: incrementItemViews_Some)
  show "getItem (((\<lambda>s. incrementItemViews s i) ^^ n) st) i = Some (it\<lparr>views := views it + int n\<rparr>)"
    using g by (rule incrementItemViews_funpow)
next
  assume "getItem st i = None"
  then show "incrementItemViews st i = st" by (simp add: incrementItemViews_def)
qed

theorem incrementItemViews_adds_one_witness:
  "getItem demoStore 2 = Some (stored_as carKeys 2 3000) \<and> views (stored_as carKeys 2 3000) = 0 \<and>
   getItem (incrementItemViews demoStore 2) 2 = Some ((stored_as carKeys 2 3000)\<lparr>views := 1\<rparr>) \<and>
   getItem (incrementItemViews demoStore 2) 3 = getItem demoStore 3 \<and>
   getItem (((\<lambda>s. incrementItemViews s 2) ^^ 5) demoStore) 2 = Some ((stored_as carKeys 2 3000)\<lparr>views := 5\<rparr>) \<and>
   getItem demoStore 7 = None \<and> incrementItemViews demoStore 7 = demoStore"
proof -
  have g: "getItem demoStore 2 = Some (stored_as carKeys 2 3000)"
    by (simp add: getItem_def demoStore_def)
  have v: "views (stored_as carKeys 2 3000) = 0"
    by (simp add: stored_as_def insertItem.extend_def item.fields_def)
  have n: "getItem demoStore 7 = None"
    by (simp add: getItem_def demoStore_def)
  show ?thesis
    using g v n incrementItemViews_adds_one [of demoStore 2 "stored_as carKeys 2 3000" 5]
      incrementItemViews_adds_one [of demoStore 7 "stored_as carKeys 2 3000" 0]
    by simp
qed

section \<open>Creating and updating items\<close>

lemma createItem_eq:
  "createItem now st d =
     (stored_as d (itemIdCounter st) now,
      st\<lparr>itemIdCounter := itemIdCounter st + 1,
         items := Map_set (items st) (itemIdCounter st) (stored_as d (itemIdCounter st) now)\<rparr>)"
  by (simp add: createItem_def stored_as_def Let_def)

text \<open>
  Claim C5. The item that \<open>createItem\<close> returns has the value of the item counter as
  its identifier, the time of the call as \<open>createdAt\<close> and no views; \<open>images\<close> and
  \<open>locationDetails\<close> are \<open>null\<close> when the payload omits them and are the payload's when
  it has an array or a non-empty string there; every other field is the payload's. The
  item is stored under its identifier, where \<open>getItem\<close> finds it, the counter is one
  higher, and the items under other identifiers are as before.
\<close>

theorem createItem_returns_stored_item:
  "createItem now st d = (it, st') \<Longrightarrow>
     id' it = itemIdCounter st \<and> createdAt it = now \<and> views it = 0 \<and>
     (images d = Undefined \<longrightarrow> images it = Null) \<and>
     (locationDetails d = Undefined \<longrightarrow> locationDetails it = Null) \<and>
     (\<forall>xs. images d = Value xs \<longrightarrow> images it = Value xs) \<and>
     (\<forall>s. locationDetails d = Value s \<and> s \<noteq> [] \<longrightarrow> locationDetails it = Value s) \<and>
     insertItem.userId it = insertItem.userId d \<and> name it = name d \<and> type it = type d \<and>
     description it = description d \<and> status it = status d \<and> date it = date d \<and>
     location it = location d \<and> coordinates it = coordinates d \<and>
     contactName it = contactName d \<and> contactEmail it = contactEmail d \<and>
     getItem st' (id' it) = Some it \<and>
     (\<forall>j. j \<noteq> id' it \<longrightarrow> getItem st' j = getItem st j) \<and>
     itemIdCounter st' = itemIdCounter st + 1"
proof -
  assume "createItem now st d = (it, st')"
  then have it: "it = stored_as d (itemIdCounter st) now"
    and st': "st' = st\<lparr>itemIdCounter := itemIdCounter st + 1,
         items := Map_set (items st) (itemIdCounter st) it\<rparr>"
    by (auto simp: createItem_eq)
  have fields: "id' it = itemIdCounter st" "createdAt it = now" "views it = 0"
    "images it = array_or_null (images d)"
    "locationDetails it = string_or_null (locationDetails d)"
    "insertItem.userId it = insertItem.userId d" "name it = name d" "type it = type d"
    "description it = description d" "status it = status d" "date it = date d"
    "location it = location d" "coordinates it = coordinates d"
    "contactName it = contactName d" "contactEmail it = contactEmail d"
    by (simp_all add: it stored_as_def insertItem.extend_def item.fields_def)
  have "getItem st' j = (if j = id' it then Some it else getItem st j)" for j
    by (simp add: st' getItem_def Map_get_set fields(1))
  moreover have "itemIdCounter st' = itemIdCounter st + 1"
    by (simp add: st')
  ultimately show ?thesis
    using fields by simp
qed

theorem createItem_returns_stored_item_witness:
  "createItem 5000 demoStore backpack =
     (stored_as backpack 4 5000,
      demoStore\<lparr>itemIdCounter := 5,
                 items := items demoStore @ [(4, stored_as backpack 4 5000)]\<rparr>) \<and>
   id' (stored_as backpack 4 5000) = 4 \<and> createdAt (stored_as backpack 4 5000) = 5000 \<and>
   views (stored_as backpack 4 5000) = 0 \<and>
   images backpack = Undefined \<and> images (stored_as backpack 4 5000) = Null \<and>
   locationDetails backpack = Undefined \<and> locationDetails (stored_as backpack 4 5000) = Null \<and>
   name (stored_as backpack 4 5000) = ''Navy Blue Backpack'' \<and>
   getItem (snd (createItem 5000 demoStore backpack)) 4 = Some (stored_as backpack 4 5000) \<and>
   getItem (snd (createItem 5000 demoStore backpack)) 2 = getItem demoStore 2"
proof -
  have c: "createItem 5000 demoStore backpack =
     (stored_as backpack 4 5000,
      demoStore\<lparr>itemIdCounter := 5,
                 items := items demoStore @ [(4, stored_as backpack 4 5000)]\<rparr>)"
    by (simp add: createItem_eq demoStore_def)
  have u: "images backpack = Undefined" "locationDetails backpack = Undefined"
    "name backpack = ''Navy Blue Backpack''"
    by (simp_all add: backpack_def sampleItem_def)
  have i: "itemIdCounter demoStore = 4"
    by (simp add: demoStore_def)
  show ?thesis
    using createItem_returns_stored_item [OF c] c u i by auto
qed

section \<open>Updating an item\<close>

text \<open>
  Claim C4. When no item is stored under the identifier, \<open>updateItem\<close> returns the absent
  value and the store as it was. Otherwise it returns the spread of the update over the
  stored item, in which every key that the update has holds the update's value and
  every key that it lacks holds the item's; the merged item is stored under the
  identifier, at the place the old one had in the map, and nothing else in the store
  changes.
\<close>

theorem updateItem_shallow_merge:
  "(getItem st i = None \<longrightarrow> updateItem st i p = (None, st)) \<and>
   (getItem st i = Some it \<longrightarrow>
      fst (updateItem st i p) = Some (spread_item it p) \<and>
      getItem (snd (updateItem st i p)) i = Some (spread_item it p) \<and>
      (\<forall>j. j \<noteq> i \<longrightarrow> getItem (snd (updateItem st i p)) j = getItem st j) \<and>
      map fst (items (snd (updateItem st i p))) = map fst (items st) \<and>
      snd (updateItem st i p) = st\<lparr>items := items (snd (updateItem st i p))\<rparr>) \<and>
   insertItem.userId (spread_item it p) =
     (case partialItem.userId p of Some v \<Rightarrow> v | None \<Rightarrow> insertItem.userId it) \<and>
   name (spread_item it p) = (case partialItem.name p of Some v \<Rightarrow> v | None \<Rightarrow> name it) \<and>
   type (spread_item it p) = (case partialItem.type p of Some v \<Rightarrow> v | None \<Rightarrow> type it) \<and>
   description (spread_item it p) =
     (case partialItem.description p of Some v \<Rightarrow> v | None \<Rightarrow> description it) \<and>
   status (spread_item it p) = (case partialItem.status p of Some v \<Rightarrow> v | None \<Rightarrow> status it) \<and>
   date (spread_item it p) = (case partialItem.date p of Some v \<Rightarrow> v | None \<Rightarrow> date it) \<and>
   location (spread_item it p) =
     (case partialItem.location p of Some v \<Rightarrow> v | None \<Rightarrow> location it) \<and>
   locationDetails (spread_item it p) =
     (case partialItem.locationDetails p of Some v \<Rightarrow> v | None \<Rightarrow> locationDetails it) \<and>
   coordinates (spread_item it p) =
     (case partialItem.coordinates p of Some v \<Rightarrow> v | None \<Rightarrow> coordinates it) \<and>
   images (spread_item it p) = (case partialItem.images p of Some v \<Rightarrow> v | None \<Rightarrow> images it) \<and>
   contactName (spread_item it p) =
     (case partialItem.contactName p of Some v \<Rightarrow> v | None \<Rightarrow> contactName it) \<and>
   contactEmail (spread_item it p) =
     (case partialItem.contactEmail p of Some v \<Rightarrow> v | None \<Rightarrow> contactEmail it) \<and>
   id' (spread_item it p) = (case partialItem.id' p of Some v \<Rightarrow> v | None \<Rightarrow> id' it) \<and>
   createdAt (spread_item it p) =
     (case partialItem.createdAt p of Some v \<Rightarrow> v | None \<Rightarrow> createdAt it) \<and>
   views (spread_item it p) = (case partialItem.views p of Some v \<Rightarrow> v | None \<Rightarrow> views it)"
proof -
  have k: "spread_key old new = (case new of Some v \<Rightarrow> v | None \<Rightarrow> old)" for old :: 'a and new
    by (cases new) simp_all
  have none: "getItem st i = None \<longrightarrow> updateItem st i p = (None, st)"
    by (simp add: updateItem_def)
  have some: "getItem st i = Some it \<longrightarrow>
      fst (updateItem st i p) = Some (spread_item it p) \<and>
      getItem (snd (updateItem st i p)) i = Some (spread_item it p) \<and>
      (\<forall>j. j \<noteq> i \<longrightarrow> getItem (snd (updateItem st i p)) j = getItem st j) \<and>
      map fst (items (snd (updateItem st i p))) = map fst (items st) \<and>
      snd (updateItem st i p) = st\<lparr>items := items (snd (updateItem st i p))\<rparr>"
  proof
    assume g: "getItem st i = Some it"
    then have u: "updateItem st i p =
        (Some (spread_item it p), st\<lparr>items := Map_set (items st) i (spread_item it p)\<rparr>)"
      by (simp add: updateItem_def Let_def)
    from g have "Map_get (items st) i \<noteq> None" by (simp add: getItem_def)
    then have "map fst (Map_set (items st) i (spread_item it p)) = map fst (items st)"
      by (rule Map_set_keys_present)
    then show "fst (updateItem st i p) = Some (spread_item it p) \<and>
      getItem (snd (updateItem st i p)) i = Some (spread_item it p) \<and>
      (\<forall>j. j \<noteq> i \<longrightarrow> getItem (snd (updateItem st i p)) j = getItem st j) \<and>
      map fst (items (snd (updateItem st i p))) = map fst (items st) \<and>
      snd (updateItem st i p) = st\<lparr>items := items (snd (updateItem st i p))\<rparr>"
      by (simp add: u getItem_def Map_get_set)
  qed
  have fields: "insertItem.userId (spread_item it p) =
     (case partialItem.userId p of Some v \<Rightarrow> v | None \<Rightarrow> insertItem.userId it)"
   "name (spread_item it p) = (case partialItem.name p of Some v \<Rightarrow> v | None \<Rightarrow> name it)"
   "type (spread_item it p) = (case partialItem.type p of Some v \<Rightarrow> v | None \<Rightarrow> type it)"
   "description (spread_item it p) =
     (case partialItem.description p of Some v \<Rightarrow> v | None \<Rightarrow> description it)"
   "status (spread_item it p) = (case partialItem.status p of Some v \<Rightarrow> v | None \<Rightarrow> status it)"
   "date (spread_item it p) = (case partialItem.date p of Some v \<Rightarrow> v | None \<Rightarrow> date it)"
   "location (spread_item it p) =
     (case partialItem.location p of Some v \<Rightarrow> v | None \<Rightarrow> location it)"
   "locationDetails (spread_item it p) =
     (case partialItem.locationDetails p of Some v \<Rightarrow> v | None \<Rightarrow> locationDetails it)"
   "coordinates (spread_item it p) =
     (case partialItem.coordinates p of Some v \<Rightarrow> v | None \<Rightarrow> coordinates it)"
   "images (spread_item it p) = (case partialItem.images p of Some v \<Rightarrow> v | None \<Rightarrow> images it)"
   "contactName (spread_item it p) =
     (case partialItem.contactName p of Some v \<Rightarrow> v | None \<Rightarrow> contactName it)"
   "contactEmail (spread_item it p) =
     (case partialItem.contactEmail p of Some v \<Rightarrow> v | None \<Rightarrow> contactEmail it)"
   "id' (spread_item it p) = (case partialItem.id' p of Some v \<Rightarrow> v | None \<Rightarrow> id' it)"
   "createdAt (spread_item it p) =
     (case partialItem.createdAt p of Some v \<Rightarrow> v | None \<Rightarrow> createdAt it)"
   "views (spread_item it p) = (case partialItem.views p of Some v \<Rightarrow> v | None \<Rightarrow> views it)"
    by (simp_all add: spread_item_def k)
  show ?thesis
    using none some fields by (intro conjI) assumption+
qed

theorem updateItem_shallow_merge_witness:
  "getItem demoStore 7 = None \<and>
   updateItem demoStore 7 (noKeys\<lparr>partialItem.location := Some ''Y''\<rparr>) = (None, demoStore) \<and>
   getItem demoStore 1 = Some (stored_as backpack 1 2000) \<and>
   fst (updateItem demoStore 1 (noKeys\<lparr>partialItem.location := Some ''Y''\<rparr>)) =
     Some ((stored_as backpack 1 2000)\<lparr>location := ''Y''\<rparr>) \<and>
   name ((stored_as backpack 1 2000)\<lparr>location := ''Y''\<rparr>) = ''Navy Blue Backpack'' \<and>
   location ((stored_as backpack 1 2000)\<lparr>location := ''Y''\<rparr>) = ''Y'' \<and>
   getItem (snd (updateItem demoStore 1 (noKeys\<lparr>partialItem.location := Some ''Y''\<rparr>))) 1 =
     Some ((stored_as backpack 1 2000)\<lparr>location := ''Y''\<rparr>) \<and>
   getItem (snd (updateItem demoStore 1 (noKeys\<lparr>partialItem.location := Some ''Y''\<rparr>))) 2 =
     getItem demoStore 2"
proof -
  have n: "getItem demoStore 7 = None" and g: "getItem demoStore 1 = Some (stored_as backpack 1 2000)"
    by (simp_all add: getItem_def demoStore_def)
  have s: "spread_item (stored_as backpack 1 2000) (noKeys\<lparr>partialItem.location := Some ''Y''\<rparr>) =
      (stored_as backpack 1 2000)\<lparr>location := ''Y''\<rparr>"
    by (simp add: spread_item_def noKeys_def stored_as_def insertItem.extend_def item.fields_def)
  have b: "name (stored_as backpack 1 2000) = ''Navy Blue Backpack''"
    by (simp add: stored_as_def insertItem.extend_def item.fields_def backpack_def sampleItem_def)
  show ?thesis
    using n g s b
      updateItem_shallow_merge [of demoStore 7 "noKeys\<lparr>partialItem.location := Some ''Y''\<rparr>"
        "stored_as backpack 1 2000"]
      updateItem_shallow_merge [of demoStore 1 "noKeys\<lparr>partialItem.location := Some ''Y''\<rparr>"
        "stored_as backpack 1 2000"]
    by simp
qed

section \<open>Identifiers handed out by a run\<close>

lemma perform_userIdCounter:
  "perform st c = (r, st1) \<Longrightarrow>
   (case r of
      RUser u \<Rightarrow> user.id' u = userIdCounter st \<and> userIdCounter st1 = userIdCounter st + 1
    | _ \<Rightarrow> userIdCounter st1 = userIdCounter st)"
  by (cases c)
    (auto simp: createUser_def createItem_def updateItem_def deleteItem_def
      incrementItemViews_def createMessage_def markMessageAsRead_def Let_def Map_delete_def
      insertUser.extend_def user.fields_def split: option.splits)

lemma perform_itemIdCounter:
  "perform st c = (r, st1) \<Longrightarrow>
   (case r of
      RItem it \<Rightarrow> id' it = itemIdCounter st \<and> itemIdCounter st1 = itemIdCounter st + 1
    | _ \<Rightarrow> itemIdCounter st1 = itemIdCounter st)"
  by (cases c)
    (auto simp: createUser_def createItem_def updateItem_def deleteItem_def
      incrementItemViews_def createMessage_def markMessageAsRead_def Let_def Map_delete_def
      stored_as_def insertItem.extend_def item.fields_def split: option.splits)

lemma perform_messageIdCounter:
  "perform st c = (r, st1) \<Longrightarrow>
   (case r of
      RMessage m \<Rightarrow> message.id' m = messageIdCounter st \<and>
        messageIdCounter st1 = messageIdCounter st + 1
    | _ \<Rightarrow> messageIdCounter st1 = messageIdCounter st)"
  by (cases c)
    (auto simp: createUser_def createItem_def updateItem_def deleteItem_def
      incrementItemViews_def createMessage_def markMessageAsRead_def Let_def Map_delete_def
      insertMessage.extend_def message.fields_def split: option.splits)

lemma run_Cons:
  "run st (c # cs) = (fst (perform st c) # fst (run (snd (perform st c)) cs),
                      snd (run (snd (perform st c)) cs))"
  by (simp add: case_prod_beta Let_def)

lemma run_userIds:
  "sorted_wrt (<) (userIds (fst (run st cs))) \<and>
   (\<forall>k \<in> set (userIds (fst (run st cs))). userIdCounter st \<le> k)"
proof (induction cs arbitrary: st)
  case Nil
  show ?case by simp
next
  case (Cons c cs)
  obtain r st1 where p: "perform st c = (r, st1)" by fastforce
  note IH = Cons.IH [of st1]
  show ?case
    using perform_userIdCounter [OF p] IH
    by (cases r) (auto simp: run_Cons p simp del: run.simps)
qed

lemma run_itemIds:
  "sorted_wrt (<) (itemIds (fst (run st cs))) \<and>
   (\<forall>k \<in> set (itemIds (fst (run st cs))). itemIdCounter st \<le> k)"
proof (induction cs arbitrary: st)
  case Nil
  show ?case by simp
next
  case (Cons c cs)
  obtain r st1 where p: "perform st c = (r, st1)" by fastforce
  note IH = Cons.IH [of st1]
  show ?case
    using perform_itemIdCounter [OF p] IH
    by (cases r) (auto simp: run_Cons p simp del: run.simps)
qed

lemma run_messageIds:
  "sorted_wrt (<) (messageIds (fst (run st cs))) \<and>
   (\<forall>k \<in> set (messageIds (fst (run st cs))). messageIdCounter st \<le> k)"
proof (induction cs arbitrary: st)
  case Nil
  show ?case by simp
next
  case (Cons c cs)
  obtain r st1 where p: "perform st c = (r, st1)" by fastforce
  note IH = Cons.IH [of st1]
  show ?case
    using perform_messageIdCounter [OF p] IH
    by (cases r) (auto simp: run_Cons p simp del: run.simps)
qed

text \<open>
  Claim C3. In every run of calls, from every store, the identifiers that the creating
  calls hand out to users, to items and to messages are each strictly increasing in the
  order of the calls, hence pairwise different, whatever is deleted in between, and none
  is below the counter the run started with. The counters are unbounded integers here;
  a JavaScript number stops growing at \<open>2^53\<close>, which no run reaches in practice.
\<close>

theorem ids_strictly_increasing:
  "sorted_wrt (<) (userIds (fst (run st cs))) \<and> distinct (userIds (fst (run st cs))) \<and>
   (\<forall>k \<in> set (userIds (fst (run st cs))). userIdCounter st \<le> k) \<and>
   sorted_wrt (<) (itemIds (fst (run st cs))) \<and> distinct (itemIds (fst (run st cs))) \<and>
   (\<forall>k \<in> set (itemIds (fst (run st cs))). itemIdCounter st \<le> k) \<and>
   sorted_wrt (<) (messageIds (fst (run st cs))) \<and> distinct (messageIds (fst (run st cs))) \<and>
   (\<forall>k \<in> set (messageIds (fst (run st cs))). messageIdCounter st \<le> k)"
proof -
  have "sorted_wrt (<) xs \<Longrightarrow> distinct xs" for xs :: "int list"
    by (simp add: strict_sorted_iff)
  then show ?thesis
    using run_userIds [of st cs] run_itemIds [of st cs] run_messageIds [of st cs] by blast
qed

lemma run_demo:
  "fst (run new_MemStorage (initDemoData @ laterCalls)) =
     [RUser (insertUser.extend demoUser (user.fields 1 1000)),
      RItem (stored_as backpack 1 2000), RItem (stored_as carKeys 2 3000),
      RItem (stored_as iPad 3 4000),
      RMessage (insertMessage.extend demoMessage (message.fields 1 6000 False)),
      RBool True, RItem (stored_as carKeys 4 7000),
      RUser (insertUser.extend demoUser (user.fields 2 8000)), RBool True, RVoid]"
  by (simp add: initDemoData_def laterCalls_def new_MemStorage_def createUser_def createItem_def
      createMessage_def deleteItem_def markMessageAsRead_def incrementItemViews_def
      getMessage_def getItem_def Map_delete_def Map_has_def Let_def)

theorem ids_strictly_increasing_witness:
  "userIds (fst (run new_MemStorage (initDemoData @ laterCalls))) = [1, 2] \<and>
   itemIds (fst (run new_MemStorage (initDemoData @ laterCalls))) = [1, 2, 3, 4] \<and>
   messageIds (fst (run new_MemStorage (initDemoData @ laterCalls))) = [1] \<and>
   sorted_wrt (<) [1, 2, 3, 4 :: int] \<and> distinct [1, 2, 3, 4 :: int] \<and>
   itemIdCounter new_MemStorage \<le> 1"
proof -
  have "userIds (fst (run new_MemStorage (initDemoData @ laterCalls))) = [1, 2]"
    "itemIds (fst (run new_MemStorage (initDemoData @ laterCalls))) = [1, 2, 3, 4]"
    "messageIds (fst (run new_MemStorage (initDemoData @ laterCalls))) = [1]"
    by (simp_all add: run_demo stored_as_def insertItem.extend_def item.fields_def
        insertUser.extend_def user.fields_def insertMessage.extend_def message.fields_def)
  then show ?thesis
    using ids_strictly_increasing [of new_MemStorage "initDemoData @ laterCalls"] by simp
qed

section \<open>Marking messages as read\<close>

lemma Map_set_same: "Map_get m k = Some v \<Longrightarrow> Map_set m k v = m"
  by (induction m) (auto split: if_splits)

lemma perform_messages_below:
  assumes "\<forall>k \<in> fst ` set (messages st). k < messageIdCounter st"
  shows "\<forall>k \<in> fst ` set (messages (snd (perform st c))). k < messageIdCounter (snd (perform st c))"
proof (cases c)
  case (CreateMessage now d)
  then show ?thesis
    using assms by (auto simp: createMessage_def Let_def Map_set_keys)
next
  case (MarkMessageAsRead j)
  show ?thesis
  proof (cases "getMessage st j")
    case None
    with MarkMessageAsRead assms show ?thesis by (simp add: markMessageAsRead_def)
  next
    case (Some mj)
    then have "j \<in> fst ` set (messages st)"
      by (metis getMessage_def Map_get_None_iff option.distinct(1))
    then have "fst ` set (Map_set (messages st) j (mj\<lparr>read := True\<rparr>)) = fst ` set (messages st)"
      by (auto simp: Map_set_keys)
    with MarkMessageAsRead Some assms show ?thesis
      by (simp add: markMessageAsRead_def)
  qed
qed (use assms in \<open>auto simp: createUser_def createItem_def updateItem_def deleteItem_def
      incrementItemViews_def Let_def Map_delete_def split: option.splits\<close>)

lemma perform_read:
  assumes below: "\<forall>k \<in> fst ` set (messages st). k < messageIdCounter st"
    and g: "getMessage st i = Some m" and r: "read m"
  shows "\<exists>m1. getMessage (snd (perform st c)) i = Some m1 \<and> read m1"
proof (cases c)
  case (CreateMessage now d)
  from g have "i \<in> fst ` set (messages st)"
    by (metis getMessage_def Map_get_None_iff option.distinct(1))
  with below have "i \<noteq> messageIdCounter st" by auto
  with CreateMessage g r show ?thesis
    by (simp add: createMessage_def Let_def getMessage_def Map_get_set)
next
  case (MarkMessageAsRead j)
  show ?thesis
  proof (cases "getMessage st j")
    case None
    with MarkMessageAsRead g r show ?thesis by (simp add: markMessageAsRead_def)
  next
    case (Some mj)
    with MarkMessageAsRead g r show ?thesis
      by (simp add: markMessageAsRead_def getMessage_def Map_get_set)
  qed
qed (use g r in \<open>auto simp: createUser_def createItem_def updateItem_def deleteItem_def
      incrementItemViews_def getMessage_def Let_def Map_delete_def split: option.splits\<close>)

lemma run_messages_below:
  "\<forall>k \<in> fst ` set (messages st). k < messageIdCounter st \<Longrightarrow>
   \<forall>k \<in> fst ` set (messages (snd (run st cs))). k < messageIdCounter (snd (run st cs))"
proof (induction cs arbitrary: st)
  case Nil
  then show ?case by simp
next
  case (Cons c cs)
  from Cons.prems have "\<forall>k \<in> fst ` set (messages (snd (perform st c))).
      k < messageIdCounter (snd (perform st c))"
    by (rule perform_messages_below)
  then show ?case
    using Cons.IH [of "snd (perform st c)"] by (simp add: run_Cons del: run.simps)
qed

lemma run_read:
  "\<forall>k \<in> fst ` set (messages st). k < messageIdCounter st \<Longrightarrow>
   getMessage st i = Some m \<Longrightarrow> read m \<Longrightarrow>
   \<exists>m1. getMessage (snd (run st cs)) i = Some m1 \<and> read m1"
proof (induction cs arbitrary: st m)
  case Nil
  then show ?case by simp
next
  case (Cons c cs)
  from Cons.prems obtain m1 where "getMessage (snd (perform st c)) i = Some m1" "read m1"
    using perform_read by blast
  moreover from Cons.prems(1) have "\<forall>k \<in> fst ` set (messages (snd (perform st c))).
      k < messageIdCounter (snd (perform st c))"
    by (rule perform_messages_below)
  ultimately show ?case
    using Cons.IH [of "snd (perform st c)" m1] by (simp add: run_Cons del: run.simps)
qed

text \<open>
  Claim C7. \<open>markMessageAsRead\<close> returns false and the store as it was when no message is
  stored under the identifier. When one is, it returns true and leaves that message
  with \<open>read\<close> true and every other message as before; on a message that is already
  read the store is unchanged, so the call is idempotent. In every store that calls
  have built from the empty one, a message that is read is still stored and read after
  any further calls: no call turns \<open>read\<close> from true to false.
\<close>

theorem markMessageAsRead_only_sets_read:
  "(getMessage st i = None \<longrightarrow> markMessageAsRead st i = (False, st)) \<and>
   (getMessage st i = Some m \<longrightarrow>
      fst (markMessageAsRead st i) = True \<and>
      getMessage (snd (markMessageAsRead st i)) i = Some (m\<lparr>read := True\<rparr>) \<and>
      (\<forall>j. j \<noteq> i \<longrightarrow> getMessage (snd (markMessageAsRead st i)) j = getMessage st j) \<and>
      (read m \<longrightarrow> markMessageAsRead st i = (True, st)) \<and>
      markMessageAsRead (snd (markMessageAsRead st i)) i = (True, snd (markMessageAsRead st i))) \<and>
   (getMessage (snd (run new_MemStorage cs0)) i = Some m0 \<and> read m0 \<longrightarrow>
      (\<exists>m1. getMessage (snd (run (snd (run new_MemStorage cs0)) cs)) i = Some m1 \<and> read m1))"
proof (intro conjI impI)
  assume "getMessage st i = None"
  then show "markMessageAsRead st i = (False, st)" by (simp add: markMessageAsRead_def)
next
  assume g: "getMessage st i = Some m"
  then have eq: "markMessageAsRead st i =
      (True, st\<lparr>messages := Map_set (messages st) i (m\<lparr>read := True\<rparr>)\<rparr>)"
    by (simp add: markMessageAsRead_def)
  show "fst (markMessageAsRead st i) = True" by (simp add: eq)
  show g1: "getMessage (snd (markMessageAsRead st i)) i = Some (m\<lparr>read := True\<rparr>)"
    by (simp add: eq getMessage_def Map_get_set)
  show "\<forall>j. j \<noteq> i \<longrightarrow> getMessage (snd (markMessageAsRead st i)) j = getMessage st j"
    by (simp add: eq getMessage_def Map_get_set)
  have same: "getMessage s i = Some x \<Longrightarrow> read x \<Longrightarrow> markMessageAsRead s i = (True, s)" for s x
    by (simp add: markMessageAsRead_def getMessage_def Map_set_same)
  show "markMessageAsRead st i = (True, st)" if "read m"
    using g that by (rule same)
  show "markMessageAsRead (snd (markMessageAsRead st i)) i = (True, snd (markMessageAsRead st i))"
    using g1 by (rule same) simp
next
  assume a: "getMessage (snd (run new_MemStorage cs0)) i = Some m0 \<and> read m0"
  have "\<forall>k \<in> fst ` set (messages new_MemStorage). k < messageIdCounter new_MemStorage"
    by (simp add: new_MemStorage_def)
  then have "\<forall>k \<in> fst ` set (messages (snd (run new_MemStorage cs0))).
      k < messageIdCounter (snd (run new_MemStorage cs0))"
    by (rule run_messages_below)
  then show "\<exists>m1. getMessage (snd (run (snd (run new_MemStorage cs0)) cs)) i = Some m1 \<and> read m1"
    using a run_read by blast
qed

theorem markMessageAsRead_only_sets_read_witness:
  "getMessage new_MemStorage 1 = None \<and>
   markMessageAsRead new_MemStorage 1 = (False, new_MemStorage) \<and>
   getMessage (snd (run new_MemStorage [CreateMessage 5000 demoMessage])) 1 =
     Some (insertMessage.extend demoMessage (message.fields 1 5000 False)) \<and>
   fst (markMessageAsRead (snd (run new_MemStorage [CreateMessage 5000 demoMessage])) 1) = True \<and>
   getMessage (snd (run new_MemStorage sendAndRead)) 1 =
     Some (insertMessage.extend demoMessage (message.fields 1 5000 True)) \<and>
   read (insertMessage.extend demoMessage (message.fields 1 5000 True)) \<and>
   markMessageAsRead (snd (run new_MemStorage sendAndRead)) 1 =
     (True, snd (run new_MemStorage sendAndRead)) \<and>
   (\<exists>m1. getMessage (snd (run (snd (run new_MemStorage sendAndRead)) laterCalls)) 1 = Some m1 \<and>
      read m1)"
proof -
  have n: "getMessage new_MemStorage 1 = None"
    by (simp add: getMessage_def new_MemStorage_def)
  have u: "getMessage (snd (run new_MemStorage [CreateMessage 5000 demoMessage])) 1 =
     Some (insertMessage.extend demoMessage (message.fields 1 5000 False))"
    by (simp add: new_MemStorage_def createMessage_def getMessage_def Let_def)
  have g: "getMessage (snd (run new_MemStorage sendAndRead)) 1 =
     Some (insertMessage.extend demoMessage (message.fields 1 5000 True))"
    by (simp add: sendAndRead_def new_MemStorage_def createMessage_def markMessageAsRead_def
        getMessage_def Let_def insertMessage.extend_def message.fields_def)
  have r: "read (insertMessage.extend demoMessage (message.fields 1 5000 True))"
    by (simp add: insertMessage.extend_def message.fields_def)
  show ?thesis
    using n u g r
      markMessageAsRead_only_sets_read [of new_MemStorage 1
        "insertMessage.extend demoMessage (message.fields 1 5000 True)" sendAndRead
        "insertMessage.extend demoMessage (message.fields 1 5000 True)" laterCalls]
      markMessageAsRead_only_sets_read [of "snd (run new_MemStorage [CreateMessage 5000 demoMessage])" 1
        "insertMessage.extend demoMessage (message.fields 1 5000 False)" sendAndRead
        "insertMessage.extend demoMessage (message.fields 1 5000 True)" laterCalls]
      markMessageAsRead_only_sets_read [of "snd (run new_MemStorage sendAndRead)" 1
        "insertMessage.extend demoMessage (message.fields 1 5000 True)" sendAndRead
        "insertMessage.extend demoMessage (message.fields 1 5000 True)" laterCalls]
    by simp
qed

section \<open>Listing items\<close>

lemma filter_if: "(if c then filter p xs else xs) = filter (\<lambda>x. c \<longrightarrow> p x) xs"
  by simp

lemma filter_case_option:
  "(case v of Some d \<Rightarrow> filter (p d) xs | None \<Rightarrow> xs) = filter (\<lambda>x. \<forall>d. v = Some d \<longrightarrow> p d x) xs"
  by (cases v) simp_all

lemma filter_twice: "filter p (filter q xs) = filter (\<lambda>x. q x \<and> p x) xs"
  by (induction xs) auto

lemma Array_slice_past_end: "int (length xs) \<le> start \<Longrightarrow> Array_slice xs start e = []"
  by (simp add: Array_slice_def relative_index_def Let_def)

lemma getItems_unpaged:
  "\<not> truthy_number (limit opts) \<Longrightarrow>
   getItems st (Some opts) =
     Array_sort byRecent
       (filter (\<lambda>i. (\<forall>s. getItemsOptions.status opts = Some s \<and> s \<noteq> [] \<longrightarrow> status i = s) \<and>
                    (\<forall>t. getItemsOptions.type opts = Some t \<and> t \<noteq> [] \<longrightarrow> type i = t) \<and>
                    (\<forall>u. getItemsOptions.userId opts = Some u \<longrightarrow> insertItem.userId i = u))
          (Map_values (items st)))"
proof -
  assume "\<not> truthy_number (limit opts)"
  then have "getItems st (Some opts) =
     Array_sort byRecent
       (filter (\<lambda>i. (truthy_string (getItemsOptions.status opts) \<longrightarrow>
                        Some (status i) = getItemsOptions.status opts) \<and>
                    (truthy_string (getItemsOptions.type opts) \<longrightarrow>
                        Some (type i) = getItemsOptions.type opts) \<and>
                    (getItemsOptions.userId opts \<noteq> None \<longrightarrow>
                        Some (insertItem.userId i) = getItemsOptions.userId opts))
          (Map_values (items st)))"
    by (simp only: getItems_def Let_def option.case filter_if filter_twice if_False)
  also have "(\<lambda>i. (truthy_string (getItemsOptions.status opts) \<longrightarrow>
                        Some (status i) = getItemsOptions.status opts) \<and>
                    (truthy_string (getItemsOptions.type opts) \<longrightarrow>
                        Some (type i) = getItemsOptions.type opts) \<and>
                    (getItemsOptions.userId opts \<noteq> None \<longrightarrow>
                        Some (insertItem.userId i) = getItemsOptions.userId opts)) =
      (\<lambda>i. (\<forall>s. getItemsOptions.status opts = Some s \<and> s \<noteq> [] \<longrightarrow> status i = s) \<and>
                    (\<forall>t. getItemsOptions.type opts = Some t \<and> t \<noteq> [] \<longrightarrow> type i = t) \<and>
                    (\<forall>u. getItemsOptions.userId opts = Some u \<longrightarrow> insertItem.userId i = u))"
    by (cases "getItemsOptions.status opts"; cases "getItemsOptions.type opts";
        cases "getItemsOptions.userId opts") auto
  finally show ?thesis .
qed

lemma getItems_paged:
  "limit opts = Some l \<Longrightarrow> l \<noteq> 0 \<Longrightarrow>
   getItems st (Some opts) =
     Array_slice (getItems st (Some (opts\<lparr>limit := None\<rparr>)))
       (case offset opts of None \<Rightarrow> 0 | Some f \<Rightarrow> f)
       ((case offset opts of None \<Rightarrow> 0 | Some f \<Rightarrow> f) + l)"
  by (cases "offset opts") (simp_all add: getItems_def Let_def)

text \<open>
  Claim C1, as the code has it. Without an options object \<open>getItems\<close> returns the items
  in insertion order. With one, and with \<open>limit\<close> missing or 0, it returns exactly the
  items that pass the \<open>status\<close> and \<open>type\<close> filters that are non-empty strings and the
  \<open>userId\<close> filter when that key is present, each as often as it is stored, ordered by
  \<open>createdAt\<close> descending, items of equal \<open>createdAt\<close> in insertion order. With a
  \<open>limit\<close> other than 0 it returns \<open>slice(offset, offset + limit)\<close> of that sorted
  result, \<open>offset\<close> being 0 when the key is missing: for an offset that is not negative
  and a positive limit these are the \<open>limit\<close> items after the first \<open>offset\<close> ones, and
  for an offset at or past the end of the result it is the empty array.
\<close>

theorem getItems_filters_sorts_slices:
  "getItems st None = Map_values (items st) \<and>
   (limit opts = None \<or> limit opts = Some 0 \<longrightarrow>
      (let kept = filter (\<lambda>i. (\<forall>s. getItemsOptions.status opts = Some s \<and> s \<noteq> [] \<longrightarrow> status i = s) \<and>
                              (\<forall>t. getItemsOptions.type opts = Some t \<and> t \<noteq> [] \<longrightarrow> type i = t) \<and>
                              (\<forall>u. getItemsOptions.userId opts = Some u \<longrightarrow> insertItem.userId i = u))
                    (Map_values (items st))
       in mset (getItems st (Some opts)) = mset kept \<and>
          sorted_wrt (\<lambda>a b. createdAt b \<le> createdAt a) (getItems st (Some opts)) \<and>
          (\<forall>t. filter (\<lambda>i. createdAt i = t) (getItems st (Some opts)) =
               filter (\<lambda>i. createdAt i = t) kept))) \<and>
   (limit opts = Some l \<and> l \<noteq> 0 \<and> off = (case offset opts of None \<Rightarrow> 0 | Some f \<Rightarrow> f) \<longrightarrow>
      getItems st (Some opts) =
        Array_slice (getItems st (Some (opts\<lparr>limit := None\<rparr>))) off (off + l) \<and>
      (0 \<le> off \<and> 0 < l \<longrightarrow>
         getItems st (Some opts) =
           take (nat l) (drop (nat off) (getItems st (Some (opts\<lparr>limit := None\<rparr>))))) \<and>
      (int (length (getItems st (Some (opts\<lparr>limit := None\<rparr>)))) \<le> off \<longrightarrow>
         getItems st (Some opts) = []))"
proof (intro conjI impI)
  show "getItems st None = Map_values (items st)"
    by (simp add: getItems_def)
next
  assume "limit opts = None \<or> limit opts = Some 0"
  then have "\<not> truthy_number (limit opts)" by auto
  note eq = getItems_unpaged [OF this, of st]
  show "let kept = filter (\<lambda>i. (\<forall>s. getItemsOptions.status opts = Some s \<and> s \<noteq> [] \<longrightarrow> status i = s) \<and>
                              (\<forall>t. getItemsOptions.type opts = Some t \<and> t \<noteq> [] \<longrightarrow> type i = t) \<and>
                              (\<forall>u. getItemsOptions.userId opts = Some u \<longrightarrow> insertItem.userId i = u))
                    (Map_values (items st))
       in mset (getItems st (Some opts)) = mset kept \<and>
          sorted_wrt (\<lambda>a b. createdAt b \<le> createdAt a) (getItems st (Some opts)) \<and>
          (\<forall>t. filter (\<lambda>i. createdAt i = t) (getItems st (Some opts)) =
               filter (\<lambda>i. createdAt i = t) kept)"
    unfolding Let_def eq
    by (intro conjI allI mset_byRecent sorted_byRecent stable_byRecent)
next
  assume a: "limit opts = Some l \<and> l \<noteq> 0 \<and> off = (case offset opts of None \<Rightarrow> 0 | Some f \<Rightarrow> f)"
  then show sl: "getItems st (Some opts) =
        Array_slice (getItems st (Some (opts\<lparr>limit := None\<rparr>))) off (off + l)"
    using getItems_paged [of opts l st] by simp
  show "getItems st (Some opts) =
           take (nat l) (drop (nat off) (getItems st (Some (opts\<lparr>limit := None\<rparr>))))"
    if "0 \<le> off \<and> 0 < l"
    using that by (simp add: sl Array_slice_nonneg)
  show "getItems st (Some opts) = []"
    if "int (length (getItems st (Some (opts\<lparr>limit := None\<rparr>)))) \<le> off"
    using that by (simp add: sl Array_slice_past_end)
qed

lemma getItems_demoStore:
  "getItems demoStore (Some noOptions) =
     [stored_as iPad 3 4000, stored_as carKeys 2 3000, stored_as backpack 1 2000]"
  "getItems demoStore (Some (noOptions\<lparr>getItemsOptions.status := Some ''lost''\<rparr>)) =
     [stored_as iPad 3 4000, stored_as backpack 1 2000]"
  "getItems demoStore (Some (noOptions\<lparr>limit := Some 0\<rparr>)) =
     [stored_as iPad 3 4000, stored_as carKeys 2 3000, stored_as backpack 1 2000]"
  by (simp_all add: getItems_def noOptions_def demoStore_def Map_values_def Array_sort_def
      byRecent_def stored_as_def insertItem.extend_def item.fields_def backpack_def carKeys_def
      iPad_def sampleItem_def)

theorem getItems_filters_sorts_slices_witness:
  "limit (noOptions\<lparr>getItemsOptions.status := Some ''lost''\<rparr>) = None \<and>
   getItems demoStore (Some (noOptions\<lparr>getItemsOptions.status := Some ''lost''\<rparr>)) =
     [stored_as iPad 3 4000, stored_as backpack 1 2000] \<and>
   sorted_wrt (\<lambda>a b. createdAt b \<le> createdAt a)
     (getItems demoStore (Some (noOptions\<lparr>getItemsOptions.status := Some ''lost''\<rparr>))) \<and>
   limit (noOptions\<lparr>limit := Some 2, offset := Some 1\<rparr>) = Some 2 \<and>
   getItems demoStore (Some (noOptions\<lparr>limit := Some 2, offset := Some 1\<rparr>)) =
     [stored_as carKeys 2 3000, stored_as backpack 1 2000] \<and>
   getItems demoStore (Some (noOptions\<lparr>limit := Some 2, offset := Some 5\<rparr>)) = []"
proof -
  have l: "limit (noOptions\<lparr>getItemsOptions.status := Some ''lost''\<rparr>) = None"
    "noOptions\<lparr>limit := Some 2, offset := Some 1, limit := None\<rparr> = noOptions\<lparr>offset := Some 1\<rparr>"
    "noOptions\<lparr>limit := Some 2, offset := Some 5, limit := None\<rparr> = noOptions\<lparr>offset := Some 5\<rparr>"
    by (simp_all add: noOptions_def)
  have u: "getItems demoStore (Some (noOptions\<lparr>offset := Some 1\<rparr>)) = getItems demoStore (Some noOptions)"
    "getItems demoStore (Some (noOptions\<lparr>offset := Some 5\<rparr>)) = getItems demoStore (Some noOptions)"
    by (simp_all add: getItems_def noOptions_def)
  have a: "sorted_wrt (\<lambda>a b. createdAt b \<le> createdAt a)
     (getItems demoStore (Some (noOptions\<lparr>getItemsOptions.status := Some ''lost''\<rparr>)))"
    using getItems_filters_sorts_slices
      [of demoStore "noOptions\<lparr>getItemsOptions.status := Some ''lost''\<rparr>" 2 1] l(1)
    by (simp add: Let_def)
  have b: "getItems demoStore (Some (noOptions\<lparr>limit := Some 2, offset := Some 1\<rparr>)) =
      take (nat 2) (drop (nat 1) (getItems demoStore (Some (noOptions\<lparr>offset := Some 1\<rparr>))))"
    using getItems_filters_sorts_slices
      [of demoStore "noOptions\<lparr>limit := Some 2, offset := Some 1\<rparr>" 2 1]
    by (auto simp: l(2))
  have c: "getItems demoStore (Some (noOptions\<lparr>limit := Some 2, offset := Some 5\<rparr>)) = []"
    using getItems_filters_sorts_slices
      [of demoStore "noOptions\<lparr>limit := Some 2, offset := Some 5\<rparr>" 2 5]
    by (auto simp: l(3) u(2) getItems_demoStore(1))
  show ?thesis
    using l(1) a b c by (simp add: u(1) getItems_demoStore)
qed

text \<open>
  The claim as the specification words it fails where \<open>limit\<close> is present and 0: the
  slice from \<open>offset\<close> to \<open>offset + 0\<close> is empty, and the code returns all three sample
  items.
\<close>

theorem getItems_limit_zero_counterexample:
  "getItems demoStore (Some (noOptions\<lparr>limit := Some 0\<rparr>)) \<noteq>
   claimed_getItems demoStore (Some (noOptions\<lparr>limit := Some 0\<rparr>))"
proof -
  have "claimed_getItems demoStore (Some (noOptions\<lparr>limit := Some 0\<rparr>)) = []"
    by (simp add: claimed_getItems_def noOptions_def Let_def)
  then show ?thesis
    by (simp add: getItems_demoStore)
qed

section \<open>Searching items\<close>

lemma truthy_string_iff: "truthy_string v \<longleftrightarrow> (\<exists>s. v = Some s \<and> s \<noteq> [])"
  by (cases v) auto

lemma searchItems_raw:
  "searchItems lc ds st q options =
     Array_sort byRecent
       (filter (\<lambda>i. (q \<noteq> [] \<longrightarrow>
                       String_includes (lc (name i)) (lc q) \<or>
                       String_includes (lc (description i)) (lc q) \<or>
                       String_includes (lc (location i)) (lc q)) \<and>
                    (\<forall>opts. options = Some opts \<longrightarrow>
                       (truthy_string (searchItemsOptions.status opts) \<longrightarrow>
                          Some (status i) = searchItemsOptions.status opts) \<and>
                       (truthy_string (searchItemsOptions.type opts) \<longrightarrow>
                          Some (type i) = searchItemsOptions.type opts) \<and>
                       (\<forall>d. searchItemsOptions.date opts = Some d \<longrightarrow> ds (date i) = ds d) \<and>
                       (truthy_string (searchItemsOptions.location opts) \<longrightarrow>
                          String_includes (lc (location i))
                            (lc (the (searchItemsOptions.location opts))))))
          (Map_values (items st)))"
  by (simp only: searchItems_def Let_def filter_if filter_case_option filter_twice)

lemma searchItems_eq:
  "searchItems lc ds st q options =
     Array_sort byRecent
       (filter (\<lambda>i. (q \<noteq> [] \<longrightarrow>
                       String_includes (lc (name i)) (lc q) \<or>
                       String_includes (lc (description i)) (lc q) \<or>
                       String_includes (lc (location i)) (lc q)) \<and>
                    (\<forall>opts. options = Some opts \<longrightarrow>
                       (\<forall>s. searchItemsOptions.status opts = Some s \<and> s \<noteq> [] \<longrightarrow> status i = s) \<and>
                       (\<forall>t. searchItemsOptions.type opts = Some t \<and> t \<noteq> [] \<longrightarrow> type i = t) \<and>
                       (\<forall>d. searchItemsOptions.date opts = Some d \<longrightarrow> ds (date i) = ds d) \<and>
                       (\<forall>l. searchItemsOptions.location opts = Some l \<and> l \<noteq> [] \<longrightarrow>
                          String_includes (lc (location i)) (lc l))))
          (Map_values (items st)))"
proof -
  have "(\<lambda>i. (q \<noteq> [] \<longrightarrow>
                       String_includes (lc (name i)) (lc q) \<or>
                       String_includes (lc (description i)) (lc q) \<or>
                       String_includes (lc (location i)) (lc q)) \<and>
                    (\<forall>opts. options = Some opts \<longrightarrow>
                       (truthy_string (searchItemsOptions.status opts) \<longrightarrow>
                          Some (status i) = searchItemsOptions.status opts) \<and>
                       (truthy_string (searchItemsOptions.type opts) \<longrightarrow>
                          Some (type i) = searchItemsOptions.type opts) \<and>
                       (\<forall>d. searchItemsOptions.date opts = Some d \<longrightarrow> ds (date i) = ds d) \<and>
                       (truthy_string (searchItemsOptions.location opts) \<longrightarrow>
                          String_includes (lc (location i))
                            (lc (the (searchItemsOptions.location opts)))))) =
        (\<lambda>i. (q \<noteq> [] \<longrightarrow>
                       String_includes (lc (name i)) (lc q) \<or>
                       String_includes (lc (description i)) (lc q) \<or>
                       String_includes (lc (location i)) (lc q)) \<and>
                    (\<forall>opts. options = Some opts \<longrightarrow>
                       (\<forall>s. searchItemsOptions.status opts = Some s \<and> s \<noteq> [] \<longrightarrow> status i = s) \<and>
                       (\<forall>t. searchItemsOptions.type opts = Some t \<and> t \<noteq> [] \<longrightarrow> type i = t) \<and>
                       (\<forall>d. searchItemsOptions.date opts = Some d \<longrightarrow> ds (date i) = ds d) \<and>
                       (\<forall>l. searchItemsOptions.location opts = Some l \<and> l \<noteq> [] \<longrightarrow>
                          String_includes (lc (location i)) (lc l))))"
    by (intro ext) (auto simp: truthy_string_iff)
  then show ?thesis
    unfolding searchItems_raw by (rule arg_cong)
qed

text \<open>
  Claim C2, as the code has it. \<open>searchItems\<close> returns exactly the items, each as often
  as it is stored, that contain the lower-cased query in the lower-cased \<open>name\<close>,
  \<open>description\<close> or \<open>location\<close> when the query is not empty, and that pass each filter of
  the options object: the \<open>status\<close> and \<open>type\<close> equalities when these are non-empty
  strings, the equality of the calendar days when \<open>date\<close> is present, and the
  containment of the lower-cased \<open>location\<close> filter when it is a non-empty string. The
  result is ordered by \<open>createdAt\<close> descending, items of equal \<open>createdAt\<close> in insertion
  order. \<open>lc\<close> and \<open>ds\<close> stand for \<open>toLowerCase\<close> and \<open>toDateString\<close>.
\<close>

theorem searchItems_filters_and_sorts:
  "(let kept =
      filter (\<lambda>i. (q \<noteq> [] \<longrightarrow>
                      String_includes (lc (name i)) (lc q) \<or>
                      String_includes (lc (description i)) (lc q) \<or>
                      String_includes (lc (location i)) (lc q)) \<and>
                   (\<forall>opts. options = Some opts \<longrightarrow>
                      (\<forall>s. searchItemsOptions.status opts = Some s \<and> s \<noteq> [] \<longrightarrow> status i = s) \<and>
                      (\<forall>t. searchItemsOptions.type opts = Some t \<and> t \<noteq> [] \<longrightarrow> type i = t) \<and>
                      (\<forall>d. searchItemsOptions.date opts = Some d \<longrightarrow> ds (date i) = ds d) \<and>
                      (\<forall>l. searchItemsOptions.location opts = Some l \<and> l \<noteq> [] \<longrightarrow>
                         String_includes (lc (location i)) (lc l))))
        (Map_values (items st))
    in mset (searchItems lc ds st q options) = mset kept \<and>
       sorted_wrt (\<lambda>a b. createdAt b \<le> createdAt a) (searchItems lc ds st q options) \<and>
       (\<forall>t. filter (\<lambda>i. createdAt i = t) (searchItems lc ds st q options) =
            filter (\<lambda>i. createdAt i = t) kept))"
  unfolding Let_def searchItems_eq
  by (intro conjI allI mset_byRecent sorted_byRecent stable_byRecent)

lemma searchItems_demoStore:
  "searchItems toLowerCase_ascii toDateString_utc demoStore ''backpack'' None =
     [stored_as backpack 1 2000]"
  "searchItems toLowerCase_ascii toDateString_utc demoStore []
       (Some (noSearchOptions\<lparr>searchItemsOptions.location := Some ''delhi''\<rparr>)) =
     [stored_as iPad 3 4000, stored_as backpack 1 2000]"
  "searchItems toLowerCase_ascii toDateString_utc demoStore []
       (Some (noSearchOptions\<lparr>searchItemsOptions.date := Some 300000000\<rparr>)) =
     [stored_as iPad 3 4000, stored_as carKeys 2 3000]"
  "searchItems toLowerCase_ascii toDateString_utc demoStore []
       (Some (noSearchOptions\<lparr>searchItemsOptions.status := Some []\<rparr>)) =
     [stored_as iPad 3 4000, stored_as carKeys 2 3000, stored_as backpack 1 2000]"
  by (simp_all add: searchItems_def noSearchOptions_def demoStore_def Map_values_def
      Array_sort_def byRecent_def stored_as_def insertItem.extend_def item.fields_def
      backpack_def carKeys_def iPad_def sampleItem_def toLowerCase_ascii_def lower_char_def
      toDateString_utc_def)

theorem searchItems_filters_and_sorts_witness:
  "searchItems toLowerCase_ascii toDateString_utc demoStore ''backpack'' None =
     [stored_as backpack 1 2000] \<and>
   searchItems toLowerCase_ascii toDateString_utc demoStore []
       (Some (noSearchOptions\<lparr>searchItemsOptions.location := Some ''delhi''\<rparr>)) =
     [stored_as iPad 3 4000, stored_as backpack 1 2000] \<and>
   sorted_wrt (\<lambda>a b. createdAt b \<le> createdAt a) [stored_as iPad 3 4000, stored_as backpack 1 2000] \<and>
   searchItems toLowerCase_ascii toDateString_utc demoStore []
       (Some (noSearchOptions\<lparr>searchItemsOptions.date := Some 300000000\<rparr>)) =
     [stored_as iPad 3 4000, stored_as carKeys 2 3000]"
  using searchItems_filters_and_sorts [of "[]" toLowerCase_ascii
      "Some (noSearchOptions\<lparr>searchItemsOptions.location := Some ''delhi''\<rparr>)"
      toDateString_utc demoStore]
  by (simp add: Let_def searchItems_demoStore)

text \<open>
  The claim as the specification words it fails where \<open>status\<close> is present and empty:
  no sample item has the empty status, and the code returns all three.
\<close>

theorem searchItems_empty_status_counterexample:
  "searchItems toLowerCase_ascii toDateString_utc demoStore []
       (Some (noSearchOptions\<lparr>searchItemsOptions.status := Some []\<rparr>)) \<noteq>
   claimed_searchItems toLowerCase_ascii toDateString_utc demoStore []
       (Some (noSearchOptions\<lparr>searchItemsOptions.status := Some []\<rparr>))"
proof -
  have "claimed_searchItems toLowerCase_ascii toDateString_utc demoStore []
       (Some (noSearchOptions\<lparr>searchItemsOptions.status := Some []\<rparr>)) = []"
    by (simp add: claimed_searchItems_def noSearchOptions_def demoStore_def Map_values_def
        Array_sort_def stored_as_def insertItem.extend_def item.fields_def
        backpack_def carKeys_def iPad_def sampleItem_def)
  then show ?thesis
    by (simp add: searchItems_demoStore)
qed

section \<open>Fields that an update can overwrite\<close>

text \<open>
  Claim C8 fails on the code. \<open>updateItem\<close> spreads every key of the update over the
  stored item, \<open>createdAt\<close> and \<open>views\<close> among them, and the \<open>PATCH\<close> route passes the
  request body to it without validating it: updating the first sample item with
  \<open>createdAt\<close> 0 and \<open>views\<close> 1000 leaves it stored with these values, although it was
  created at time 2000 and has never been viewed.
\<close>

theorem updateItem_overwrites_createdAt_and_views:
  "getItem demoStore 1 = Some (stored_as backpack 1 2000) \<and>
   createdAt (stored_as backpack 1 2000) = 2000 \<and> views (stored_as backpack 1 2000) = 0 \<and>
   getItem (snd (updateItem demoStore 1
       (noKeys\<lparr>partialItem.createdAt := Some 0, partialItem.views := Some 1000\<rparr>))) 1 =
     Some ((stored_as backpack 1 2000)\<lparr>createdAt := 0, views := 1000\<rparr>)"
proof -
  have g: "getItem demoStore 1 = Some (stored_as backpack 1 2000)"
    by (simp add: getItem_def demoStore_def)
  have s: "spread_item (stored_as backpack 1 2000)
      (noKeys\<lparr>partialItem.createdAt := Some 0, partialItem.views := Some 1000\<rparr>) =
      (stored_as backpack 1 2000)\<lparr>createdAt := 0, views := 1000\<rparr>"
    by (simp add: spread_item_def noKeys_def stored_as_def insertItem.extend_def item.fields_def)
  have f: "createdAt (stored_as backpack 1 2000) = 2000" "views (stored_as backpack 1 2000) = 0"
    by (simp_all add: stored_as_def insertItem.extend_def item.fields_def)
  have u: "getItem (snd (updateItem demoStore 1
       (noKeys\<lparr>partialItem.createdAt := Some 0, partialItem.views := Some 1000\<rparr>))) 1 =
     Some (spread_item (stored_as backpack 1 2000)
       (noKeys\<lparr>partialItem.createdAt := Some 0, partialItem.views := Some 1000\<rparr>))"
    by (simp add: updateItem_def g Let_def) (simp add: getItem_def Map_get_set)
  show ?thesis
    using g f u by (simp add: s)
qed

end
